theory Spec2Isabelle
  imports Main
begin

section \<open>The construct tree\<close>

text \<open>
  The program is an AWS CDK application: every \<^verbatim>\<open>new X(scope, id, props)\<close> registers a
  construct under its scope, and the tree of constructs is the declared topology.
  A construct is addressed by its path (the ids from the root down); the tree is kept
  as the list of its nodes in creation order.
\<close>

type_synonym cpath = "string list"

text \<open>
  Values of CloudFormation properties: a literal string, the \<^verbatim>\<open>.ref\<close> token of a
  construct, or an attribute token of a construct (\<^verbatim>\<open>vpcCidrBlock\<close>, \<^verbatim>\<open>Fn.getAtt\<close>).
\<close>

datatype ident = Lit string | Ref cpath | GetAtt cpath string

datatype error =
    TypeError
  | MissingRequiredProperty string
  | DuplicateConstructId string
  | NoStackFound
  | CyclicReference cpath cpath

type_synonym tags = "(string \<times> string) list"

datatype SubnetType = PUBLIC | PRIVATE_ISOLATED

record CfnTransitGatewayProps =
  amazonSideAsn :: "nat option"
  description :: string
  autoAcceptSharedAttachments :: string
  defaultRouteTableAssociation :: string
  defaultRouteTablePropagation :: string
  dnsSupport :: string
  vpnEcmpSupport :: string
  multicastSupport :: string
  tgw_tags :: tags

datatype resource =
    StackNode
  | ConstructNode
  | Opaque string
  | VpcResource "string option" "nat option" SubnetType
  | CfnOutput string "string option" ident
  | CfnTransitGateway CfnTransitGatewayProps
  | CfnCustomerGateway "nat option" "string option" string tags
  | CfnVPNConnection ident ident bool string tags
  | CfnTransitGatewayRouteTable ident tags
  | CfnTransitGatewayAttachment ident ident "ident list" tags
  | CfnTransitGatewayRouteTableAssociation ident ident
  | CfnTransitGatewayRouteTablePropagation ident ident
  | CfnRoute ident ident ident
  | CfnGatewayRoute ident ident ident

text \<open>
  Argument order of the constructors above, as the property bags of the source:
  \<^item> \<open>VpcResource cidr cidrMask subnetType\<close> (an \<^verbatim>\<open>aws_ec2.Vpc\<close> with \<^verbatim>\<open>maxAzs: 1\<close> and one
    subnet configuration);
  \<^item> \<open>CfnOutput description exportName value\<close>;
  \<^item> \<open>CfnCustomerGateway bgpAsn ipAddress type tags\<close>;
  \<^item> \<open>CfnVPNConnection transitGatewayId customerGatewayId staticRoutesOnly type tags\<close>;
  \<^item> \<open>CfnTransitGatewayRouteTable transitGatewayId tags\<close>;
  \<^item> \<open>CfnTransitGatewayAttachment transitGatewayId vpcId subnetIds tags\<close>;
  \<^item> \<open>CfnTransitGatewayRouteTableAssociation transitGatewayRouteTableId
       transitGatewayAttachmentId\<close>, and the same for a propagation;
  \<^item> \<open>CfnRoute routeTableId destinationCidrBlock transitGatewayId\<close>;
  \<^item> \<open>CfnGatewayRoute routeTableId destinationCidrBlock gatewayId\<close>: a \<^verbatim>\<open>CfnRoute\<close> whose
    target is a gateway id (the default route that a VPC writes to its internet
    gateway) instead of a transit gateway id.
  \<open>Opaque\<close> stands for the resources outside the topology (role, elastic IP, security
  group, endpoints, instances), of which only the construct id matters here.
\<close>

record node =
  node_path :: cpath
  res :: resource
  dependsOn :: "cpath list"

text \<open>
  Besides the nodes, the tree carries the dependencies between stacks (a pair: the stack
  that depends, the stack depended on) and the dependencies declared between constructs
  through \<^verbatim>\<open>node.addDependency\<close>.
\<close>

record world =
  nodes :: "node list"
  uuid_calls :: nat
  stackDependencies :: "(cpath \<times> cpath) list"
  nodeDependencies :: "(cpath \<times> cpath) list"

definition empty_world :: world where
  "empty_world = \<lparr>nodes = [], uuid_calls = 0, stackDependencies = [],
                  nodeDependencies = []\<rparr>"

subsection \<open>Construction steps: state and exceptions\<close>

text \<open>
  A constructor runs against the tree and either returns a value or throws; the tree
  built so far is kept in both cases.
\<close>

type_synonym 'a build = "world \<Rightarrow> (error + 'a) \<times> world"

definition return :: "'a \<Rightarrow> 'a build" where
  "return a = (\<lambda>w. (Inr a, w))"

definition throw :: "error \<Rightarrow> 'a build" where
  "throw e = (\<lambda>w. (Inl e, w))"

definition and_then :: "'a build \<Rightarrow> ('a \<Rightarrow> 'b build) \<Rightarrow> 'b build" where
  "and_then m f = (\<lambda>w. case m w of (Inl e, w') \<Rightarrow> (Inl e, w') | (Inr a, w') \<Rightarrow> f a w')"

text \<open>\<^verbatim>\<open>x!.member\<close>: the non-null assertion is erased at run time, so dereferencing an
  omitted property is a TypeError.\<close>

definition nonNull :: "'a option \<Rightarrow> 'a build" where
  "nonNull x = (case x of None \<Rightarrow> throw TypeError | Some v \<Rightarrow> return v)"

text \<open>
  \<^verbatim>\<open>new X(scope, id, props)\<close>: the constructs library refuses a second child of the same
  scope with the same id ("There is already a Construct with name ..."); otherwise the
  node is appended and the new construct (its path) is returned. The library's checks
  on the form of an id (the name of a stack, the path separator) are left out: ids are
  compared as they are written.
\<close>

definition new :: "cpath \<Rightarrow> string \<Rightarrow> resource \<Rightarrow> cpath build" where
  "new scope cid r = (\<lambda>w.
     if scope @ [cid] \<in> set (map node_path (nodes w))
     then (Inl (DuplicateConstructId cid), w)
     else (Inr (scope @ [cid]),
           w\<lparr>nodes := nodes w @ [\<lparr>node_path = scope @ [cid], res = r, dependsOn = []\<rparr>]\<rparr>))"

text \<open>
  \<^verbatim>\<open>Stack.of(construct)\<close>: the nearest stack at or above a path, found by walking up from
  the construct; none when no scope on the way is a stack.
\<close>

definition is_stack :: "node list \<Rightarrow> cpath \<Rightarrow> bool" where
  "is_stack ns p = list_ex (\<lambda>n. node_path n = p \<and> res n = StackNode) ns"

fun stack_above :: "node list \<Rightarrow> string list \<Rightarrow> cpath option" where
  "stack_above ns [] = (if is_stack ns [] then Some [] else None)"
| "stack_above ns (x # up) =
     (if is_stack ns (rev (x # up)) then Some (rev (x # up)) else stack_above ns up)"

definition stackOf :: "node list \<Rightarrow> cpath \<Rightarrow> cpath option" where
  "stackOf ns p = stack_above ns (rev p)"

text \<open>
  A stack depends on another when it is that stack or a chain of stack dependencies
  leads from it to the other (\<^verbatim>\<open>stackDependencyReasons\<close>).
\<close>

definition depends_on :: "(cpath \<times> cpath) list \<Rightarrow> cpath \<Rightarrow> cpath \<Rightarrow> bool" where
  "depends_on deps a b = (a = b \<or> (a, b) \<in> (set deps)\<^sup>+)"

text \<open>
  \<^verbatim>\<open>route.addDependsOn(target)\<close>. The library looks up the stacks of both resources. In
  one stack, the target joins the resource's own dependencies (a set). In different
  stacks the resource's dependencies are left alone: the stack of the resource is made
  to depend on the stack of the target, and the call throws when that stack already
  depends on this one ("... would create a cyclic reference"). Nested stacks do not
  occur in this program. The library returns at once when source and target are one
  construct, which does not arise: the target exists before the route is created.
  A resource outside any stack is refused ("No stack could be identified ..."); the
  library does so when the resource is constructed, the model at this lookup.
\<close>

definition addDependsOn :: "cpath \<Rightarrow> cpath \<Rightarrow> unit build" where
  "addDependsOn c target = (\<lambda>w.
     case stackOf (nodes w) c of
       None \<Rightarrow> (Inl NoStackFound, w)
     | Some s \<Rightarrow>
        (case stackOf (nodes w) target of
           None \<Rightarrow> (Inl NoStackFound, w)
         | Some s' \<Rightarrow>
            if s = s' then
              (Inr (),
               w\<lparr>nodes := map (\<lambda>n. if node_path n = c
                     then n\<lparr>dependsOn := (if target \<in> set (dependsOn n) then dependsOn n
                                            else dependsOn n @ [target])\<rparr>
                     else n) (nodes w)\<rparr>)
            else if depends_on (stackDependencies w) s' s then
              (Inl (CyclicReference s' s), w)
            else
              (Inr (),
               w\<lparr>stackDependencies :=
                   (if (s, s') \<in> set (stackDependencies w) then stackDependencies w
                    else stackDependencies w @ [(s, s')])\<rparr>)))"

text \<open>\<^verbatim>\<open>construct.node.addDependency(target)\<close>: recorded on the tree as it is declared.\<close>

definition node_addDependency :: "cpath \<Rightarrow> cpath \<Rightarrow> unit build" where
  "node_addDependency c target = (\<lambda>w.
     (Inr (),
      w\<lparr>nodeDependencies :=
          (if (c, target) \<in> set (nodeDependencies w) then nodeDependencies w
           else nodeDependencies w @ [(c, target)])\<rparr>))"

text \<open>
  \<^verbatim>\<open>uuidv4()\<close> draws a random identifier. The source of randomness is a parameter: the
  \<open>k\<close>-th call of a run returns \<open>rng k\<close>.
\<close>

definition uuidv4 :: "(nat \<Rightarrow> string) \<Rightarrow> string build" where
  "uuidv4 rng = (\<lambda>w. (Inr (rng (uuid_calls w)), w\<lparr>uuid_calls := Suc (uuid_calls w)\<rparr>))"

text \<open>\<^verbatim>\<open>for (var x of xs) { body }\<close>\<close>

fun forEach :: "'a list \<Rightarrow> ('a \<Rightarrow> unit build) \<Rightarrow> unit build" where
  "forEach [] body = return ()"
| "forEach (x # xs) body = and_then (body x) (\<lambda>_. forEach xs body)"

text \<open>
  The level-1 constructor of a customer gateway registers the node and then checks its
  required properties in the order \<^verbatim>\<open>bgpAsn\<close>, \<^verbatim>\<open>ipAddress\<close>, \<^verbatim>\<open>type\<close>
  (\<^verbatim>\<open>cdk.requireProperty\<close>: "... is missing required property: ...").
\<close>

definition requireProperty :: "'a option \<Rightarrow> string \<Rightarrow> unit build" where
  "requireProperty v name = (case v of None \<Rightarrow> throw (MissingRequiredProperty name)
                                     | Some _ \<Rightarrow> return ())"

definition new_CfnCustomerGateway ::
    "cpath \<Rightarrow> string \<Rightarrow> nat option \<Rightarrow> string option \<Rightarrow> string \<Rightarrow> tags \<Rightarrow> cpath build" where
  "new_CfnCustomerGateway scope cid bgpAsn ipAddress type tgs =
     and_then (new scope cid (CfnCustomerGateway bgpAsn ipAddress type tgs)) (\<lambda>this.
     and_then (requireProperty bgpAsn ''bgpAsn'') (\<lambda>_.
     and_then (requireProperty ipAddress ''ipAddress'') (\<lambda>_.
     return this)))"

section \<open>Transit gateway, customer gateway and VPN connection\<close>

record GatewayProps =
  gw_prefix :: "string option"
  gw_amazonSideAsn :: "nat option"
  onPremIpAddress :: "string option"
  customerSideAsn :: "nat option"

record Gateway =
  cfnTransitGateway :: cpath
  cfnCustomerGateway :: cpath
  cfnVPNConnection :: cpath

definition Gateway :: "cpath \<Rightarrow> string \<Rightarrow> GatewayProps \<Rightarrow> Gateway build" where
  "Gateway scope cid props =
     and_then (new scope cid StackNode) (\<lambda>this.
     and_then (nonNull (gw_prefix props)) (\<lambda>prefix.
     and_then (new this (prefix @ ''-TGW'') (CfnTransitGateway \<lparr>
         amazonSideAsn = gw_amazonSideAsn props,
         description = ''TGW for hybrid networking'',
         autoAcceptSharedAttachments = ''enable'',
         defaultRouteTableAssociation = ''disable'',
         defaultRouteTablePropagation = ''disable'',
         dnsSupport = ''enable'',
         vpnEcmpSupport = ''enable'',
         multicastSupport = ''enable'',
         tgw_tags = [(''Name'', prefix @ ''-TGW'')]\<rparr>)) (\<lambda>tgw.
     and_then (new_CfnCustomerGateway this (prefix @ ''-CGW'')
         (customerSideAsn props) (onPremIpAddress props) ''ipsec.1''
         [(''Name'', prefix @ ''-CGW'')]) (\<lambda>cgw.
     and_then (new this (prefix @ ''-VPN'') (CfnVPNConnection
         (Ref tgw) (Ref cgw) False ''ipsec.1'' [(''Name'', prefix @ ''-VPN'')])) (\<lambda>vpn.
     and_then (new this ''transitGatewayId''
         (CfnOutput ''Transit Gateway ID'' (Some ''TransitGatewayId'') (Ref tgw))) (\<lambda>_.
     and_then (new this ''customerGatewayId''
         (CfnOutput ''Customer Gateway ID'' (Some ''CustomerGatewayId'') (Ref cgw))) (\<lambda>_.
     and_then (new this ''vpnConnectionId''
         (CfnOutput ''VPN Connection ID'' (Some ''VPNConnectionId'') (Ref vpn))) (\<lambda>_.
     return \<lparr>cfnTransitGateway = tgw, cfnCustomerGateway = cgw,
             cfnVPNConnection = vpn\<rparr>))))))))"

section \<open>Virtual private clouds\<close>

text \<open>
  What the program reads of an \<^verbatim>\<open>aws_ec2.Vpc\<close>: its id, its CIDR block attribute, its
  subnets by type, and of a subnet its id and \<^verbatim>\<open>routeTable.routeTableId\<close>.
\<close>

record ISubnet =
  subnetId :: ident
  routeTableId :: ident

record IVpc =
  vpc_node :: cpath
  vpcId :: ident
  vpcCidrBlock :: ident
  isolatedSubnets :: "ISubnet list"
  publicSubnets :: "ISubnet list"

text \<open>
  \<^verbatim>\<open>new aws_ec2.Vpc(scope, id, {cidr, maxAzs: 1, subnetConfiguration: [{cidrMask, name,
  subnetType}]})\<close>: with one availability zone and one subnet configuration the VPC has
  one subnet, of the configured type, named \<^verbatim>\<open>name + "Subnet1"\<close>, with a route table of
  its own. For a public subnet the VPC also creates an internet gateway, attaches it,
  and writes the default route \<^verbatim>\<open>0.0.0.0/0\<close> to that gateway into the subnet's route
  table (\<^verbatim>\<open>addDefaultInternetRoute\<close>); an isolated subnet gets no route.
\<close>

definition new_Vpc ::
    "cpath \<Rightarrow> string \<Rightarrow> string option \<Rightarrow> nat option \<Rightarrow> string \<Rightarrow> SubnetType \<Rightarrow> IVpc build" where
  "new_Vpc scope cid cidr cidrMask name subnetType =
     and_then (new scope cid (VpcResource cidr cidrMask subnetType)) (\<lambda>this.
     and_then (new this ''Resource'' (Opaque ''CfnVPC'')) (\<lambda>resource.
     and_then (new this (name @ ''Subnet1'') (Opaque ''Subnet'')) (\<lambda>sn.
     and_then (new sn ''Subnet'' (Opaque ''CfnSubnet'')) (\<lambda>cfnSubnet.
     and_then (new sn ''RouteTable'' (Opaque ''CfnRouteTable'')) (\<lambda>routeTable.
     and_then (new sn ''RouteTableAssociation''
                 (Opaque ''CfnSubnetRouteTableAssociation'')) (\<lambda>_.
     and_then (if subnetType = PUBLIC then
         and_then (new this ''IGW'' (Opaque ''CfnInternetGateway'')) (\<lambda>igw.
         and_then (new this ''VPCGW'' (Opaque ''CfnVPCGatewayAttachment'')) (\<lambda>att.
         and_then (new sn ''DefaultRoute''
             (CfnGatewayRoute (Ref routeTable) (Lit ''0.0.0.0/0'') (Ref igw))) (\<lambda>route.
         node_addDependency route att)))
       else return ()) (\<lambda>_.
     let subnet = \<lparr>subnetId = Ref cfnSubnet, routeTableId = Ref routeTable\<rparr>
     in return \<lparr>vpc_node = this,
                vpcId = Ref resource,
                vpcCidrBlock = GetAtt resource ''CidrBlock'',
                isolatedSubnets = (if subnetType = PRIVATE_ISOLATED then [subnet] else []),
                publicSubnets = (if subnetType = PUBLIC then [subnet] else [])\<rparr>)))))))"

subsection \<open>The simulated on-premises site\<close>

record SimulatedOnPremProps =
  op_prefix :: "string option"
  op_cidr :: "string option"
  op_cidrMask :: "nat option"
  op_ec2Role :: cpath

record SimulatedOnPrem =
  eip :: cpath
  op_vpc :: IVpc

definition SimulatedOnPrem ::
    "cpath \<Rightarrow> string \<Rightarrow> SimulatedOnPremProps \<Rightarrow> SimulatedOnPrem build" where
  "SimulatedOnPrem scope cid props =
     and_then (new scope cid ConstructNode) (\<lambda>this.
     and_then (new this ''onPremEip'' (Opaque ''CfnEIP'')) (\<lambda>eip.
     and_then (nonNull (op_prefix props)) (\<lambda>prefix.
     and_then (new_Vpc this (prefix @ ''-VPC'') (op_cidr props) (op_cidrMask props)
                 (prefix @ ''-VPC | Public'') PUBLIC) (\<lambda>vpc.
     and_then (new this ''SecurityGroupForEc2OpenSwan'' (Opaque ''SecurityGroup'')) (\<lambda>sg.
     and_then (new this ''OnPremEc2'' (Opaque ''Instance'')) (\<lambda>ec2.
     and_then (new this ''eipAllocationId''
         (CfnOutput ''EIP allocation ID'' (Some ''eipAllocationId'')
            (GetAtt eip ''AllocationId''))) (\<lambda>_.
     and_then (new this ''eipAddress'' (CfnOutput ''eip address'' None (Ref eip))) (\<lambda>_.
     and_then (new this ''onPremVpcId''
         (CfnOutput ''on prem vpc id'' None (vpcId vpc))) (\<lambda>_.
     return \<lparr>eip = eip, op_vpc = vpc\<rparr>)))))))))"

subsection \<open>A cloud segment: VPC with an instance\<close>

record VpcWithEc2Props =
  ve_prefix :: "string option"
  ve_cidr :: "string option"
  ve_cidrMask :: "nat option"
  ve_transitGateway :: "cpath option"
  ve_ec2Role :: "cpath option"

record VpcWithEc2 =
  vpc :: IVpc
  securityGroup :: cpath
  subnetIds :: "ident list"

definition VpcWithEc2 :: "cpath \<Rightarrow> string \<Rightarrow> VpcWithEc2Props \<Rightarrow> VpcWithEc2 build" where
  "VpcWithEc2 scope cid props =
     and_then (new scope cid ConstructNode) (\<lambda>this.
     and_then (nonNull (ve_prefix props)) (\<lambda>prefix.
     and_then (new_Vpc this (prefix @ ''-VPC'') (ve_cidr props) (ve_cidrMask props)
                 (prefix @ ''-VPC | ISOLATED'') PRIVATE_ISOLATED) (\<lambda>v.
     and_then (new this (prefix @ ''-SG'') (Opaque ''SecurityGroup'')) (\<lambda>sg.
     and_then (new this (prefix @ ''-SSM'') (Opaque ''InterfaceVpcEndpoint'')) (\<lambda>_.
     and_then (new this (prefix @ ''-SSM-MESSAGES'') (Opaque ''InterfaceVpcEndpoint'')) (\<lambda>_.
     and_then (new this (prefix @ ''-EC2-MESSAGES'') (Opaque ''InterfaceVpcEndpoint'')) (\<lambda>_.
     and_then (new this (prefix @ ''-Instance'') (Opaque ''Instance'')) (\<lambda>ec2.
     and_then (node_addDependency ec2 (vpc_node v)) (\<lambda>_.
     and_then (new this (prefix @ ''-VPCId'')
         (CfnOutput ''VPCId for the evironemt'' (Some (prefix @ ''VPCId'')) (vpcId v))) (\<lambda>_.
     return \<lparr>vpc = v, securityGroup = sg,
             subnetIds = map subnetId (isolatedSubnets v)\<rparr>))))))))))"

subsection \<open>The base network\<close>

text \<open>
  \<^verbatim>\<open>params.json\<close> is read as \<^verbatim>\<open>cfnParams[region].Name\<close> and \<^verbatim>\<open>cfnParams["OnPremPublicIp"]\<close>;
  the file is a parameter of the model. An entry that is absent reads as \<^verbatim>\<open>undefined\<close>.
\<close>

record RegionParams =
  AmazonSideAsn :: "nat option"
  CustomerSideAsn :: "nat option"
  DevelopmentCidr :: "string option"
  ProductionCidr :: "string option"
  OnPremCidr :: "string option"
  CidrMask :: "nat option"

record Params =
  byRegion :: "string \<Rightarrow> RegionParams option"
  OnPremPublicIp :: "string option"

record BaseNetworkStack =
  bn_developmentVpc :: VpcWithEc2
  bn_productionVpc :: VpcWithEc2
  ec2Role :: cpath

definition BaseNetworkStack ::
    "cpath \<Rightarrow> string \<Rightarrow> string \<Rightarrow> Params \<Rightarrow> BaseNetworkStack build" where
  "BaseNetworkStack scope cid region cfnParams =
     and_then (new scope cid StackNode) (\<lambda>this.
     and_then (new this ''svcRoleForEc2ViaSsm'' (Opaque ''Role'')) (\<lambda>role.
     and_then (nonNull (byRegion cfnParams region)) (\<lambda>rp.
     and_then (VpcWithEc2 this ''Development''
         \<lparr>ve_prefix = Some ''Development'', ve_cidr = DevelopmentCidr rp,
          ve_cidrMask = CidrMask rp, ve_transitGateway = None,
          ve_ec2Role = Some role\<rparr>) (\<lambda>dev.
     and_then (VpcWithEc2 this ''Production''
         \<lparr>ve_prefix = Some ''Production'', ve_cidr = ProductionCidr rp,
          ve_cidrMask = CidrMask rp, ve_transitGateway = None,
          ve_ec2Role = Some role\<rparr>) (\<lambda>prod.
     and_then (SimulatedOnPrem this ''OnPrem''
         \<lparr>op_prefix = Some ''OnPrem'', op_cidr = OnPremCidr rp,
          op_cidrMask = CidrMask rp, op_ec2Role = role\<rparr>) (\<lambda>_.
     return \<lparr>bn_developmentVpc = dev, bn_productionVpc = prod, ec2Role = role\<rparr>))))))"

section \<open>Subnet routing\<close>

record SubnetRoutingProps =
  sr_prefix :: "string option"
  sr_vpc :: "IVpc option"
  sr_transitGateway :: "cpath option"

definition SubnetRouting ::
    "(nat \<Rightarrow> string) \<Rightarrow> cpath \<Rightarrow> string \<Rightarrow> SubnetRoutingProps \<Rightarrow> cpath build" where
  "SubnetRouting rng scope cid props =
     and_then (new scope cid ConstructNode) (\<lambda>this.
     and_then (nonNull (sr_vpc props)) (\<lambda>v.
     and_then (forEach (isolatedSubnets v) (\<lambda>subnet.
        and_then (nonNull (sr_prefix props)) (\<lambda>prefix.
        and_then (uuidv4 rng) (\<lambda>u.
        and_then (nonNull (sr_transitGateway props)) (\<lambda>tgw.
        and_then (new this (prefix @ u @ ''-tgw-route'')
            (CfnRoute (routeTableId subnet) (Lit ''0.0.0.0/0'') (Ref tgw))) (\<lambda>route.
        addDependsOn route tgw)))))) (\<lambda>_.
     return this)))"

section \<open>Transit gateway route table, attachments and VPC subnet routes\<close>

record TgwRouteAttachmentProps =
  ra_prefix :: string
  ra_transitGateway :: cpath
  developmentVpc :: IVpc
  productionVpc :: IVpc

record TgwRouteAttachment =
  cfnTransitGatewayRouteTable :: cpath

definition TgwRouteAttachment ::
    "cpath \<Rightarrow> string \<Rightarrow> TgwRouteAttachmentProps \<Rightarrow> TgwRouteAttachment build" where
  "TgwRouteAttachment scope cid props =
     and_then (new scope cid StackNode) (\<lambda>this.
     and_then (new this (ra_prefix props @ ''-RouteTable'')
         (CfnTransitGatewayRouteTable (Ref (ra_transitGateway props))
            [(''Name'', ra_prefix props @ ''-RouteTable'')])) (\<lambda>rtb.
     and_then (new this (ra_prefix props @ ''dev-vpc-tgw-attachment'')
         (CfnTransitGatewayAttachment (Ref (ra_transitGateway props))
            (vpcId (developmentVpc props))
            (map subnetId (isolatedSubnets (developmentVpc props)))
            [(''Name'', ra_prefix props @ ''dev-vpc-tgw-attachment'')])) (\<lambda>tgwDevVpcAttachment.
     and_then (new this (ra_prefix props @ ''prod-vpc-tgw-attachment'')
         (CfnTransitGatewayAttachment (Ref (ra_transitGateway props))
            (vpcId (productionVpc props))
            (map subnetId (isolatedSubnets (productionVpc props)))
            [(''Name'', ra_prefix props @ ''prod-vpc-tgw-attachment'')])) (\<lambda>tgwProdVpcAttachment.
     and_then (new this ''dev-vpc-attachment-tgw-route-table-association''
         (CfnTransitGatewayRouteTableAssociation (Ref rtb) (Ref tgwDevVpcAttachment))) (\<lambda>_.
     and_then (new this ''prod-vpc-attachment-tgw-route-table-association''
         (CfnTransitGatewayRouteTableAssociation (Ref rtb) (Ref tgwProdVpcAttachment))) (\<lambda>_.
     and_then (new this ''dev-vpc-attachment-tgw-route-table-propogation''
         (CfnTransitGatewayRouteTablePropagation (Ref rtb) (Ref tgwDevVpcAttachment))) (\<lambda>_.
     and_then (new this ''prod-vpc-attachment-tgw-route-table-propogation''
         (CfnTransitGatewayRouteTablePropagation (Ref rtb) (Ref tgwProdVpcAttachment))) (\<lambda>_.
     and_then (forEach (isolatedSubnets (developmentVpc props)) (\<lambda>subnet.
        and_then (new this ''RouteToProdVpcDepartment''
            (CfnRoute (routeTableId subnet) (vpcCidrBlock (productionVpc props))
               (Ref (ra_transitGateway props)))) (\<lambda>route.
        addDependsOn route tgwDevVpcAttachment))) (\<lambda>_.
     and_then (forEach (isolatedSubnets (productionVpc props)) (\<lambda>subnet.
        and_then (new this ''RouteToDevVpcDepartment''
            (CfnRoute (routeTableId subnet) (vpcCidrBlock (developmentVpc props))
               (Ref (ra_transitGateway props)))) (\<lambda>route.
        addDependsOn route tgwDevVpcAttachment))) (\<lambda>_.
     return \<lparr>cfnTransitGatewayRouteTable = rtb\<rparr>))))))))))"

section \<open>Routing of the VPN attachment\<close>

record TgwVpnRoutingProps =
  vr_transitGateway :: cpath
  vpcRouteTableId :: ident
  devAttachmentId :: ident
  prodAttachmentId :: ident
  vpnAttachmentId :: ident

definition TgwVpnRouting :: "cpath \<Rightarrow> string \<Rightarrow> TgwVpnRoutingProps \<Rightarrow> cpath build" where
  "TgwVpnRouting scope cid props =
     and_then (new scope cid StackNode) (\<lambda>this.
     and_then (new this ''VPN''
         (CfnTransitGatewayRouteTable (Ref (vr_transitGateway props))
            [(''Name'', ''VPNRouteTable'')])) (\<lambda>vpnTransitGatewayRTB.
     and_then (new this ''VPNAssociation''
         (CfnTransitGatewayRouteTableAssociation (Ref vpnTransitGatewayRTB)
            (vpnAttachmentId props))) (\<lambda>_.
     and_then (new this ''VPNPropogation''
         (CfnTransitGatewayRouteTablePropagation (Ref vpnTransitGatewayRTB)
            (vpnAttachmentId props))) (\<lambda>_.
     and_then (new this ''DevelopmentVPNPropagation''
         (CfnTransitGatewayRouteTablePropagation (vpcRouteTableId props)
            (vpnAttachmentId props))) (\<lambda>_.
     and_then (new this ''VPNDevelopmentPropogation''
         (CfnTransitGatewayRouteTablePropagation (Ref vpnTransitGatewayRTB)
            (devAttachmentId props))) (\<lambda>_.
     and_then (new this ''VPNProductionPropogation''
         (CfnTransitGatewayRouteTablePropagation (Ref vpnTransitGatewayRTB)
            (prodAttachmentId props))) (\<lambda>_.
     return this)))))))"

section \<open>The application\<close>

definition REGION :: string where
  "REGION = ''us-east-1''"

definition app :: "Params \<Rightarrow> TgwRouteAttachment build" where
  "app cfnParams =
     and_then (BaseNetworkStack [] ''AwsBaseNetwork'' REGION cfnParams) (\<lambda>baseNetwork.
     and_then (nonNull (byRegion cfnParams REGION)) (\<lambda>rp.
     and_then (Gateway [] ''TgwAndVpnAndCgw''
         \<lparr>gw_prefix = Some ''TGW-'', gw_amazonSideAsn = AmazonSideAsn rp,
          onPremIpAddress = OnPremPublicIp cfnParams,
          customerSideAsn = CustomerSideAsn rp\<rparr>) (\<lambda>gateway.
     TgwRouteAttachment [] ''TgwRouteAttachment''
         \<lparr>ra_prefix = ''Gateway-'', ra_transitGateway = cfnTransitGateway gateway,
          developmentVpc = vpc (bn_developmentVpc baseNetwork),
          productionVpc = vpc (bn_productionVpc baseNetwork)\<rparr>)))"

section \<open>Reading the declared topology\<close>

text \<open>The nodes a run has added to the tree, in creation order.\<close>

definition created :: "world \<Rightarrow> world \<Rightarrow> node list" where
  "created w w' = drop (length (nodes w)) (nodes w')"

text \<open>No construct exists yet at or below the path \<open>p\<close>.\<close>

definition fresh :: "world \<Rightarrow> cpath \<Rightarrow> bool" where
  "fresh w p = list_all (\<lambda>n. take (length p) (node_path n) \<noteq> p) (nodes w)"

fun association_of :: "resource \<Rightarrow> (ident \<times> ident) list" where
  "association_of (CfnTransitGatewayRouteTableAssociation rt att) = [(rt, att)]"
| "association_of _ = []"

fun propagation_of :: "resource \<Rightarrow> (ident \<times> ident) list" where
  "propagation_of (CfnTransitGatewayRouteTablePropagation rt att) = [(rt, att)]"
| "propagation_of _ = []"

text \<open>Associations and propagations as pairs (route table, attachment).\<close>

definition associations :: "node list \<Rightarrow> (ident \<times> ident) list" where
  "associations ns = concat (map (\<lambda>n. association_of (res n)) ns)"

definition propagations :: "node list \<Rightarrow> (ident \<times> ident) list" where
  "propagations ns = concat (map (\<lambda>n. propagation_of (res n)) ns)"

text \<open>The route tables an attachment is bound to in a list of such pairs.\<close>

definition domains_of :: "(ident \<times> ident) list \<Rightarrow> ident \<Rightarrow> ident list" where
  "domains_of ps att = map fst (filter (\<lambda>p. snd p = att) ps)"

fun is_attachment :: "resource \<Rightarrow> bool" where
  "is_attachment (CfnTransitGatewayAttachment _ _ _ _) = True"
| "is_attachment _ = False"

definition attachments :: "node list \<Rightarrow> node list" where
  "attachments ns = filter (\<lambda>n. is_attachment (res n)) ns"

fun is_route :: "resource \<Rightarrow> bool" where
  "is_route (CfnRoute _ _ _) = True"
| "is_route (CfnGatewayRoute _ _ _) = True"
| "is_route _ = False"

definition routes :: "node list \<Rightarrow> node list" where
  "routes ns = filter (\<lambda>n. is_route (res n)) ns"

text \<open>The routes written into one route table.\<close>

fun route_into :: "ident \<Rightarrow> resource \<Rightarrow> bool" where
  "route_into rt (CfnRoute rt' _ _) = (rt' = rt)"
| "route_into rt (CfnGatewayRoute rt' _ _) = (rt' = rt)"
| "route_into rt _ = False"

definition routes_of_table :: "node list \<Rightarrow> ident \<Rightarrow> resource list" where
  "routes_of_table ns rt = filter (route_into rt) (map res ns)"

text \<open>The dependencies declared by the construct at a path.\<close>

definition deps_of :: "node list \<Rightarrow> cpath \<Rightarrow> cpath list" where
  "deps_of ns p = concat (map dependsOn (filter (\<lambda>n. node_path n = p) ns))"

text \<open>Position of a construct in creation order, and the order it induces.\<close>

fun position :: "cpath \<Rightarrow> node list \<Rightarrow> nat option" where
  "position p [] = None"
| "position p (n # ns) =
     (if node_path n = p then Some 0
      else case position p ns of None \<Rightarrow> None | Some i \<Rightarrow> Some (Suc i))"

definition created_before :: "node list \<Rightarrow> cpath \<Rightarrow> cpath \<Rightarrow> bool" where
  "created_before ns a b =
     (case (position a ns, position b ns) of
        (Some i, Some j) \<Rightarrow> i < j
      | _ \<Rightarrow> False)"

text \<open>
  A transit gateway with default route-table association (propagation) enabled makes
  the provisioning backend bind every attachment of that gateway to its default route
  table without any declared association (propagation).
\<close>

fun default_binding :: "resource \<Rightarrow> bool" where
  "default_binding (CfnTransitGateway p) =
     (defaultRouteTableAssociation p \<noteq> ''disable'' \<or>
      defaultRouteTablePropagation p \<noteq> ''disable'')"
| "default_binding _ = False"

fun attached_to :: "cpath \<Rightarrow> resource \<Rightarrow> bool" where
  "attached_to hub (CfnTransitGatewayAttachment tgw _ _ _) = (tgw = Ref hub)"
| "attached_to hub _ = False"

definition implicit_bindings :: "node list \<Rightarrow> (cpath \<times> cpath) list" where
  "implicit_bindings ns =
     concat (map (\<lambda>h. map (\<lambda>a. (node_path h, node_path a))
                          (filter (\<lambda>a. attached_to (node_path h) (res a)) ns))
                 (filter (\<lambda>h. default_binding (res h)) ns))"

text \<open>
  The errors of an absent configuration value: a required property that is missing, or
  the TypeError of reading a member of an absent entry.
\<close>

fun is_ConfigurationError :: "error \<Rightarrow> bool" where
  "is_ConfigurationError (MissingRequiredProperty _) = True"
| "is_ConfigurationError TypeError = True"
| "is_ConfigurationError (DuplicateConstructId _) = False"
| "is_ConfigurationError NoStackFound = False"
| "is_ConfigurationError (CyclicReference _ _) = False"

subsection \<open>Invariants of construction steps\<close>

definition preserves :: "(world \<Rightarrow> bool) \<Rightarrow> 'a build \<Rightarrow> bool" where
  "preserves I m = (\<forall>w. I w \<longrightarrow> I (snd (m w)))"

definition all_res :: "(resource \<Rightarrow> bool) \<Rightarrow> world \<Rightarrow> bool" where
  "all_res Q w = list_all (\<lambda>n. Q (res n)) (nodes w)"

definition distinct_paths :: "world \<Rightarrow> bool" where
  "distinct_paths w = distinct (map node_path (nodes w))"

section \<open>Sample inputs\<close>

definition sample_subnet :: "string \<Rightarrow> ISubnet" where
  "sample_subnet s = \<lparr>subnetId = Lit (''subnet-'' @ s), routeTableId = Lit (''rtb-'' @ s)\<rparr>"

definition sample_vpc :: "string \<Rightarrow> ISubnet list \<Rightarrow> ISubnet list \<Rightarrow> IVpc" where
  "sample_vpc name isolated public =
     \<lparr>vpc_node = [''Net'', name], vpcId = Lit (''vpc-'' @ name),
      vpcCidrBlock = Lit (''cidr-'' @ name), isolatedSubnets = isolated, publicSubnets = public\<rparr>"

definition sample_hub :: cpath where
  "sample_hub = [''Hub'', ''TGW--TGW'']"

definition sample_gateway_props :: GatewayProps where
  "sample_gateway_props =
     \<lparr>gw_prefix = Some ''TGW-'', gw_amazonSideAsn = Some 64512,
      onPremIpAddress = Some ''203.0.113.10'', customerSideAsn = Some 65000\<rparr>"

text \<open>Development and production with one isolated subnet each.\<close>

definition sample_props :: TgwRouteAttachmentProps where
  "sample_props =
     \<lparr>ra_prefix = ''Gateway-'', ra_transitGateway = sample_hub,
      developmentVpc = sample_vpc ''dev'' [sample_subnet ''dev1''] [],
      productionVpc = sample_vpc ''prod'' [sample_subnet ''prod1''] []\<rparr>"

text \<open>Development with two isolated subnets.\<close>

definition sample_props_two :: TgwRouteAttachmentProps where
  "sample_props_two =
     \<lparr>ra_prefix = ''Gateway-'', ra_transitGateway = sample_hub,
      developmentVpc = sample_vpc ''dev'' [sample_subnet ''dev1'', sample_subnet ''dev2''] [],
      productionVpc = sample_vpc ''prod'' [sample_subnet ''prod1''] []\<rparr>"

text \<open>Development and production without any isolated subnet.\<close>

definition sample_props_none :: TgwRouteAttachmentProps where
  "sample_props_none =
     \<lparr>ra_prefix = ''Gateway-'', ra_transitGateway = sample_hub,
      developmentVpc = sample_vpc ''dev'' [] [],
      productionVpc = sample_vpc ''prod'' [] []\<rparr>"

definition sample_vpn_props :: TgwVpnRoutingProps where
  "sample_vpn_props =
     \<lparr>vr_transitGateway = sample_hub,
      vpcRouteTableId = Ref [''Routes'', ''Gateway--RouteTable''],
      devAttachmentId = Ref [''Routes'', ''Gateway-dev-vpc-tgw-attachment''],
      prodAttachmentId = Ref [''Routes'', ''Gateway-prod-vpc-tgw-attachment''],
      vpnAttachmentId = Lit ''tgw-attach-vpn''\<rparr>"

definition sample_region :: RegionParams where
  "sample_region =
     \<lparr>AmazonSideAsn = Some 64512, CustomerSideAsn = Some 65000,
      DevelopmentCidr = Some ''10.0.0.0/24'', ProductionCidr = Some ''10.0.1.0/24'',
      OnPremCidr = Some ''10.0.2.0/24'', CidrMask = Some 24\<rparr>"

text \<open>A configuration file without the on-premises public address.\<close>

definition sample_params_no_ip :: Params where
  "sample_params_no_ip =
     \<lparr>byRegion = (\<lambda>r. if r = ''us-east-1'' then Some sample_region else None),
      OnPremPublicIp = None\<rparr>"

text \<open>Two runs draw different random identifiers.\<close>

definition first_run_uuid :: "nat \<Rightarrow> string" where
  "first_run_uuid k = replicate (Suc k) CHR ''a''"

definition second_run_uuid :: "nat \<Rightarrow> string" where
  "second_run_uuid k = replicate (Suc k) CHR ''b''"

text \<open>
  A tree with the gateway stack \<^verbatim>\<open>Hub\<close>, which holds the transit gateway \<open>sample_hub\<close>,
  and an empty stack \<^verbatim>\<open>Net\<close>.
\<close>

definition sample_world :: world where
  "sample_world =
     snd (new [] ''Net'' StackNode (snd (Gateway [] ''Hub'' sample_gateway_props empty_world)))"

text \<open>The simulated on-premises site under the stack \<^verbatim>\<open>Net\<close>.\<close>

definition sample_onprem_props :: SimulatedOnPremProps where
  "sample_onprem_props =
     \<lparr>op_prefix = Some ''OnPrem'', op_cidr = Some ''10.0.2.0/24'',
      op_cidrMask = Some 24, op_ec2Role = [''Net'', ''svcRoleForEc2ViaSsm'']\<rparr>"

definition sample_site_world :: world where
  "sample_site_world = snd (SimulatedOnPrem [''Net''] ''OnPrem'' sample_onprem_props sample_world)"

definition sample_routing_props :: SubnetRoutingProps where
  "sample_routing_props =
     \<lparr>sr_prefix = Some ''Dev'',
      sr_vpc = Some (sample_vpc ''dev'' [sample_subnet ''dev1'', sample_subnet ''dev2'']
                       [sample_subnet ''pub1'']),
      sr_transitGateway = Some sample_hub\<rparr>"

text \<open>
  The route attachment stack followed by the VPN routing stack, which is handed the
  route table and the attachments of the first.
\<close>

definition sample_topology :: world where
  "sample_topology =
     snd (TgwVpnRouting [] ''Vpn'' sample_vpn_props
            (snd (TgwRouteAttachment [] ''Routes'' sample_props empty_world)))"

text \<open>
  The VPC that \<open>SimulatedOnPrem\<close> builds under \<^verbatim>\<open>Net/OnPrem\<close> with prefix \<^verbatim>\<open>OnPrem\<close>, and
  that VPC handed to the subnet routing.
\<close>

definition sample_onprem_vpc :: IVpc where
  "sample_onprem_vpc =
     \<lparr>vpc_node = [''Net'', ''OnPrem'', ''OnPrem-VPC''],
      vpcId = Ref [''Net'', ''OnPrem'', ''OnPrem-VPC'', ''Resource''],
      vpcCidrBlock = GetAtt [''Net'', ''OnPrem'', ''OnPrem-VPC'', ''Resource''] ''CidrBlock'',
      isolatedSubnets = [],
      publicSubnets =
        [\<lparr>subnetId = Ref [''Net'', ''OnPrem'', ''OnPrem-VPC'',
                             ''OnPrem-VPC | PublicSubnet1'', ''Subnet''],
          routeTableId = Ref [''Net'', ''OnPrem'', ''OnPrem-VPC'',
                                 ''OnPrem-VPC | PublicSubnet1'', ''RouteTable'']\<rparr>]\<rparr>"

definition sample_onprem_routing_props :: SubnetRoutingProps where
  "sample_onprem_routing_props =
     \<lparr>sr_prefix = Some ''OnPrem'', sr_vpc = Some sample_onprem_vpc,
      sr_transitGateway = Some sample_hub\<rparr>"

section \<open>Auxiliary facts\<close>

subsection \<open>Identifiers built from a prefix\<close>


lemma append_neq_literal:
  "\<not> (length s \<le> length t \<and> drop (length t - length s) t = s) \<Longrightarrow> p @ s \<noteq> t"
  by auto

lemma literal_neq_append:
  "\<not> (length s \<le> length t \<and> drop (length t - length s) t = s) \<Longrightarrow> t \<noteq> p @ s"
  by auto

subsection \<open>Running a constructor under a fresh scope\<close>

lemma fresh_below:
  assumes "fresh w (scope @ [cid])" and "n \<in> set (nodes w)"
  shows "node_path n \<noteq> scope @ cid # xs"
proof
  assume eq: "node_path n = scope @ cid # xs"
  have "take (length (scope @ [cid])) (node_path n) = scope @ [cid]"
    unfolding eq by simp
  with assms show False
    by (simp add: fresh_def list_all_iff)
qed

lemma fresh_not_mem:
  "fresh w (scope @ [cid]) \<Longrightarrow> scope @ cid # xs \<notin> node_path ` set (nodes w)"
proof
  assume f: "fresh w (scope @ [cid])" and "scope @ cid # xs \<in> node_path ` set (nodes w)"
  then obtain n where "n \<in> set (nodes w)" and "node_path n = scope @ cid # xs"
    by auto
  with f show False
    using fresh_below by blast
qed

lemma fresh_map_id:
  "fresh w (scope @ [cid]) \<Longrightarrow>
     map (\<lambda>n. if node_path n = scope @ cid # xs then g n else n) (nodes w) = nodes w"
  by (rule map_idI) (simp add: fresh_below)

subsection \<open>Looking up the stack of a construct\<close>

lemma is_stack_Nil: "is_stack [] p = False"
  by (simp add: is_stack_def)

lemma is_stack_Cons:
  "is_stack (n # ns) p = (node_path n = p \<and> res n = StackNode \<or> is_stack ns p)"
  by (simp add: is_stack_def)

lemma is_stack_append: "is_stack (ns @ ms) p = (is_stack ns p \<or> is_stack ms p)"
  by (simp add: is_stack_def)

lemma fresh_not_stack:
  "fresh w (scope @ [cid]) \<Longrightarrow> is_stack (nodes w) (scope @ cid # xs) = False"
  using fresh_below [of w scope cid _ xs]
  by (auto simp add: is_stack_def list_ex_iff)

lemma stackOf_snoc:
  "stackOf ns (xs @ [a]) =
     (if is_stack ns (xs @ [a]) then Some (xs @ [a]) else stackOf ns xs)"
  by (simp add: stackOf_def)

lemma stackOf_snoc2:
  "stackOf ns (xs @ [a, b]) =
     (if is_stack ns (xs @ [a, b]) then Some (xs @ [a, b]) else stackOf ns (xs @ [a]))"
  using stackOf_snoc [of ns "xs @ [a]" b] by simp

text \<open>Nodes that are no stacks do not change the stack of any construct.\<close>

lemma is_stack_extend:
  "list_all (\<lambda>n. res n \<noteq> StackNode) ms \<Longrightarrow> is_stack (ns @ ms) p = is_stack ns p"
  by (auto simp add: is_stack_def list_ex_iff list_all_iff)

lemma stack_above_extend:
  "list_all (\<lambda>n. res n \<noteq> StackNode) ms \<Longrightarrow> stack_above (ns @ ms) up = stack_above ns up"
  by (induction up) (simp_all add: is_stack_extend del: is_stack_append)

lemma stackOf_extend:
  "list_all (\<lambda>n. res n \<noteq> StackNode) ms \<Longrightarrow> stackOf (ns @ ms) p = stackOf ns p"
  by (simp add: stackOf_def stack_above_extend)

lemmas stack_simps = is_stack_Nil is_stack_Cons is_stack_append fresh_not_stack
  stackOf_snoc stackOf_snoc2

lemmas run_defs = and_then_def new_def return_def throw_def addDependsOn_def
  node_addDependency_def nonNull_def
lemmas run_simps = run_defs fresh_not_mem fresh_map_id append_neq_literal literal_neq_append
  stack_simps
lemmas eval_defs = run_defs stackOf_def is_stack_def

subsection \<open>Runs of the route attachment stack\<close>

lemma TgwRouteAttachment_run:
  assumes "fresh w (scope @ [cid])"
    and "length (isolatedSubnets (developmentVpc props)) \<le> 1"
    and "length (isolatedSubnets (productionVpc props)) \<le> 1"
  shows "TgwRouteAttachment scope cid props w =
    (Inr \<lparr>cfnTransitGatewayRouteTable = scope @ [cid, ra_prefix props @ ''-RouteTable'']\<rparr>,
     w\<lparr>nodes := nodes w @
       [\<lparr>node_path = scope @ [cid], res = StackNode, dependsOn = []\<rparr>,
        \<lparr>node_path = scope @ [cid, ra_prefix props @ ''-RouteTable''],
         res = CfnTransitGatewayRouteTable (Ref (ra_transitGateway props))
                 [(''Name'', ra_prefix props @ ''-RouteTable'')],
         dependsOn = []\<rparr>,
        \<lparr>node_path = scope @ [cid, ra_prefix props @ ''dev-vpc-tgw-attachment''],
         res = CfnTransitGatewayAttachment (Ref (ra_transitGateway props))
                 (vpcId (developmentVpc props))
                 (map subnetId (isolatedSubnets (developmentVpc props)))
                 [(''Name'', ra_prefix props @ ''dev-vpc-tgw-attachment'')],
         dependsOn = []\<rparr>,
        \<lparr>node_path = scope @ [cid, ra_prefix props @ ''prod-vpc-tgw-attachment''],
         res = CfnTransitGatewayAttachment (Ref (ra_transitGateway props))
                 (vpcId (productionVpc props))
                 (map subnetId (isolatedSubnets (productionVpc props)))
                 [(''Name'', ra_prefix props @ ''prod-vpc-tgw-attachment'')],
         dependsOn = []\<rparr>,
        \<lparr>node_path = scope @ [cid, ''dev-vpc-attachment-tgw-route-table-association''],
         res = CfnTransitGatewayRouteTableAssociation
                 (Ref (scope @ [cid, ra_prefix props @ ''-RouteTable'']))
                 (Ref (scope @ [cid, ra_prefix props @ ''dev-vpc-tgw-attachment''])),
         dependsOn = []\<rparr>,
        \<lparr>node_path = scope @ [cid, ''prod-vpc-attachment-tgw-route-table-association''],
         res = CfnTransitGatewayRouteTableAssociation
                 (Ref (scope @ [cid, ra_prefix props @ ''-RouteTable'']))
                 (Ref (scope @ [cid, ra_prefix props @ ''prod-vpc-tgw-attachment''])),
         dependsOn = []\<rparr>,
        \<lparr>node_path = scope @ [cid, ''dev-vpc-attachment-tgw-route-table-propogation''],
         res = CfnTransitGatewayRouteTablePropagation
                 (Ref (scope @ [cid, ra_prefix props @ ''-RouteTable'']))
                 (Ref (scope @ [cid, ra_prefix props @ ''dev-vpc-tgw-attachment''])),
         dependsOn = []\<rparr>,
        \<lparr>node_path = scope @ [cid, ''prod-vpc-attachment-tgw-route-table-propogation''],
         res = CfnTransitGatewayRouteTablePropagation
                 (Ref (scope @ [cid, ra_prefix props @ ''-RouteTable'']))
                 (Ref (scope @ [cid, ra_prefix props @ ''prod-vpc-tgw-attachment''])),
         dependsOn = []\<rparr>]
       @ map (\<lambda>subnet.
           \<lparr>node_path = scope @ [cid, ''RouteToProdVpcDepartment''],
            res = CfnRoute (routeTableId subnet) (vpcCidrBlock (productionVpc props))
                    (Ref (ra_transitGateway props)),
            dependsOn = [scope @ [cid, ra_prefix props @ ''dev-vpc-tgw-attachment'']]\<rparr>)
           (isolatedSubnets (developmentVpc props))
       @ map (\<lambda>subnet.
           \<lparr>node_path = scope @ [cid, ''RouteToDevVpcDepartment''],
            res = CfnRoute (routeTableId subnet) (vpcCidrBlock (developmentVpc props))
                    (Ref (ra_transitGateway props)),
            dependsOn = [scope @ [cid, ra_prefix props @ ''dev-vpc-tgw-attachment'']]\<rparr>)
           (isolatedSubnets (productionVpc props))\<rparr>)"
proof -
  obtain ds ps where ds: "isolatedSubnets (developmentVpc props) = ds"
    and ps: "isolatedSubnets (productionVpc props) = ps" by simp
  from assms(2) ds have d: "ds = [] \<or> (\<exists>d. ds = [d])"
    by (cases ds) auto
  from assms(3) ps have p: "ps = [] \<or> (\<exists>s. ps = [s])"
    by (cases ps) auto
  from d p show ?thesis
    using assms(1) ds ps
    by (elim disjE exE) (simp_all add: TgwRouteAttachment_def run_simps)
qed

lemma TgwRouteAttachment_dev_fails:
  assumes "fresh w (scope @ [cid])"
    and "2 \<le> length (isolatedSubnets (developmentVpc props))"
  shows "fst (TgwRouteAttachment scope cid props w) =
           Inl (DuplicateConstructId ''RouteToProdVpcDepartment'')"
proof -
  from assms(2) obtain d1 d2 ds where "isolatedSubnets (developmentVpc props) = d1 # d2 # ds"
    by (auto simp: Suc_le_length_iff numeral_2_eq_2)
  then show ?thesis using assms(1)
    by (simp add: TgwRouteAttachment_def run_simps)
qed

lemma TgwRouteAttachment_prod_fails:
  assumes "fresh w (scope @ [cid])"
    and "length (isolatedSubnets (developmentVpc props)) \<le> 1"
    and "2 \<le> length (isolatedSubnets (productionVpc props))"
  shows "fst (TgwRouteAttachment scope cid props w) =
           Inl (DuplicateConstructId ''RouteToDevVpcDepartment'')"
proof -
  from assms(3) obtain s1 s2 ss where ps: "isolatedSubnets (productionVpc props) = s1 # s2 # ss"
    by (auto simp: Suc_le_length_iff numeral_2_eq_2)
  from assms(2) have "isolatedSubnets (developmentVpc props) = [] \<or>
      (\<exists>d. isolatedSubnets (developmentVpc props) = [d])"
    by (cases "isolatedSubnets (developmentVpc props)") auto
  then show ?thesis using assms(1) ps
    by (elim disjE exE) (simp_all add: TgwRouteAttachment_def run_simps)
qed

lemma TgwRouteAttachment_route_ids:
  assumes "fresh w (scope @ [cid])"
    and "length (isolatedSubnets (developmentVpc props)) \<le> 1"
    and "length (isolatedSubnets (productionVpc props)) \<le> 1"
  shows "map node_path (routes (created w (snd (TgwRouteAttachment scope cid props w)))) =
           map (\<lambda>subnet. scope @ [cid, ''RouteToProdVpcDepartment''])
             (isolatedSubnets (developmentVpc props)) @
           map (\<lambda>subnet. scope @ [cid, ''RouteToDevVpcDepartment''])
             (isolatedSubnets (productionVpc props))"
  unfolding TgwRouteAttachment_run [OF assms]
  by (simp add: created_def routes_def filter_map comp_def)

lemma fresh_empty: "fresh empty_world p"
  by (simp add: fresh_def empty_world_def)

section \<open>Subnet routes of the route attachment stack\<close>

text \<open>
  Claim C9, as amended. Under a fresh stack id the construction succeeds exactly when
  the development and the production VPC have at most one isolated subnet each; a
  second development subnet is refused as a duplicate of the id
  \<^verbatim>\<open>RouteToProdVpcDepartment\<close>, and a second production subnet as a duplicate of the id
  \<^verbatim>\<open>RouteToDevVpcDepartment\<close>. When it succeeds, every development-side route stands under
  the first id and every production-side route under the second.
\<close>
theorem single_subnet_only:
  assumes "fresh w (scope @ [cid])"
  shows "((\<exists>h. fst (TgwRouteAttachment scope cid props w) = Inr h) \<longleftrightarrow>
            length (isolatedSubnets (developmentVpc props)) \<le> 1 \<and>
            length (isolatedSubnets (productionVpc props)) \<le> 1)
       \<and> (2 \<le> length (isolatedSubnets (developmentVpc props)) \<longrightarrow>
            fst (TgwRouteAttachment scope cid props w) =
              Inl (DuplicateConstructId ''RouteToProdVpcDepartment''))
       \<and> (length (isolatedSubnets (developmentVpc props)) \<le> 1 \<and>
          2 \<le> length (isolatedSubnets (productionVpc props)) \<longrightarrow>
            fst (TgwRouteAttachment scope cid props w) =
              Inl (DuplicateConstructId ''RouteToDevVpcDepartment''))
       \<and> (length (isolatedSubnets (developmentVpc props)) \<le> 1 \<and>
          length (isolatedSubnets (productionVpc props)) \<le> 1 \<longrightarrow>
            map node_path (routes (created w (snd (TgwRouteAttachment scope cid props w)))) =
              map (\<lambda>subnet. scope @ [cid, ''RouteToProdVpcDepartment''])
                (isolatedSubnets (developmentVpc props)) @
              map (\<lambda>subnet. scope @ [cid, ''RouteToDevVpcDepartment''])
                (isolatedSubnets (productionVpc props)))"
proof -
  let ?d = "length (isolatedSubnets (developmentVpc props))"
  let ?p = "length (isolatedSubnets (productionVpc props))"
  consider "?d \<le> 1 \<and> ?p \<le> 1" | "2 \<le> ?d" | "?d \<le> 1 \<and> 2 \<le> ?p"
    by linarith
  then show ?thesis
  proof cases
    case 1
    then have ok: "\<exists>h. fst (TgwRouteAttachment scope cid props w) = Inr h"
      by (simp add: TgwRouteAttachment_run [OF assms])
    from 1 have ids:
      "map node_path (routes (created w (snd (TgwRouteAttachment scope cid props w)))) =
         map (\<lambda>subnet. scope @ [cid, ''RouteToProdVpcDepartment''])
           (isolatedSubnets (developmentVpc props)) @
         map (\<lambda>subnet. scope @ [cid, ''RouteToDevVpcDepartment''])
           (isolatedSubnets (productionVpc props))"
      by (intro TgwRouteAttachment_route_ids [OF assms]) simp_all
    from 1 ok ids show ?thesis
      by simp
  next
    case 2
    then show ?thesis
      by (simp add: TgwRouteAttachment_dev_fails [OF assms])
  next
    case 3
    then show ?thesis
      by (simp add: TgwRouteAttachment_prod_fails [OF assms])
  qed
qed

theorem single_subnet_only_witness:
  "fresh empty_world ([] @ [''Routes'']) \<and>
   fst (TgwRouteAttachment [] ''Routes'' sample_props_two empty_world) =
     Inl (DuplicateConstructId ''RouteToProdVpcDepartment'')"
  using single_subnet_only [of empty_world "[]" "''Routes''" sample_props_two]
  by (simp add: fresh_empty sample_props_two_def sample_vpc_def)

text \<open>
  Claim C9 as stated says that the construction succeeds only with exactly one subnet
  in each segment. With no isolated subnet in either VPC both loops are empty and the
  construction succeeds.
\<close>

theorem no_subnet_counterexample:
  "isolatedSubnets (developmentVpc sample_props_none) = [] \<and>
   isolatedSubnets (productionVpc sample_props_none) = [] \<and>
   fst (TgwRouteAttachment [] ''Routes'' sample_props_none empty_world) =
     Inr \<lparr>cfnTransitGatewayRouteTable = [''Routes'', ''Gateway--RouteTable'']\<rparr>"
  by (simp add: TgwRouteAttachment_def eval_defs sample_props_none_def sample_vpc_def
        sample_hub_def empty_world_def)

text \<open>
  Claim C2 at a development VPC with two isolated subnets: the loop reaches the second
  subnet, the id \<^verbatim>\<open>RouteToProdVpcDepartment\<close> is already taken, the constructor throws,
  and no route exists for the route table of the second subnet.
\<close>

theorem two_development_subnets_rejected:
  "fst (TgwRouteAttachment [] ''Routes'' sample_props_two empty_world) =
     Inl (DuplicateConstructId ''RouteToProdVpcDepartment'') \<and>
   routes_of_table (nodes (snd (TgwRouteAttachment [] ''Routes'' sample_props_two empty_world)))
     (routeTableId (sample_subnet ''dev2'')) = []"
  by (simp add: TgwRouteAttachment_def eval_defs sample_props_two_def sample_vpc_def
        sample_hub_def empty_world_def sample_subnet_def routes_of_table_def)

section \<open>Associations and propagations of the hub\<close>

subsection \<open>Runs of the VPN routing stack after the route attachment stack\<close>

lemma TgwVpnRouting_run:
  assumes "fresh w (scope @ [cid])"
  shows "TgwVpnRouting scope cid props w =
    (Inr (scope @ [cid]),
     w\<lparr>nodes := nodes w @
       [\<lparr>node_path = scope @ [cid], res = StackNode, dependsOn = []\<rparr>,
        \<lparr>node_path = scope @ [cid, ''VPN''],
         res = CfnTransitGatewayRouteTable (Ref (vr_transitGateway props))
                 [(''Name'', ''VPNRouteTable'')],
         dependsOn = []\<rparr>,
        \<lparr>node_path = scope @ [cid, ''VPNAssociation''],
         res = CfnTransitGatewayRouteTableAssociation (Ref (scope @ [cid, ''VPN'']))
                 (vpnAttachmentId props),
         dependsOn = []\<rparr>,
        \<lparr>node_path = scope @ [cid, ''VPNPropogation''],
         res = CfnTransitGatewayRouteTablePropagation (Ref (scope @ [cid, ''VPN'']))
                 (vpnAttachmentId props),
         dependsOn = []\<rparr>,
        \<lparr>node_path = scope @ [cid, ''DevelopmentVPNPropagation''],
         res = CfnTransitGatewayRouteTablePropagation (vpcRouteTableId props)
                 (vpnAttachmentId props),
         dependsOn = []\<rparr>,
        \<lparr>node_path = scope @ [cid, ''VPNDevelopmentPropogation''],
         res = CfnTransitGatewayRouteTablePropagation (Ref (scope @ [cid, ''VPN'']))
                 (devAttachmentId props),
         dependsOn = []\<rparr>,
        \<lparr>node_path = scope @ [cid, ''VPNProductionPropogation''],
         res = CfnTransitGatewayRouteTablePropagation (Ref (scope @ [cid, ''VPN'']))
                 (prodAttachmentId props),
         dependsOn = []\<rparr>]\<rparr>)"
  using assms by (simp add: TgwVpnRouting_def run_simps)

lemma fresh_after_TgwRouteAttachment:
  assumes "fresh w (scope @ [cid])" and "fresh w (scope @ [cid'])" and "cid \<noteq> cid'"
    and "length (isolatedSubnets (developmentVpc props)) \<le> 1"
    and "length (isolatedSubnets (productionVpc props)) \<le> 1"
  shows "fresh (snd (TgwRouteAttachment scope cid props w)) (scope @ [cid'])"
  using assms(2,3)
  by (auto simp add: TgwRouteAttachment_run [OF assms(1,4,5)] fresh_def list_all_iff)

lemma hub_topology_nodes:
  assumes "fresh w (scope @ [cid])" and "fresh w (scope @ [cid'])" and "cid \<noteq> cid'"
    and "length (isolatedSubnets (developmentVpc props)) \<le> 1"
    and "length (isolatedSubnets (productionVpc props)) \<le> 1"
  shows "fst (TgwVpnRouting scope cid' vprops (snd (TgwRouteAttachment scope cid props w)))
           = Inr (scope @ [cid'])"
    and "associations (created w
           (snd (TgwVpnRouting scope cid' vprops (snd (TgwRouteAttachment scope cid props w))))) =
         [(Ref (scope @ [cid, ra_prefix props @ ''-RouteTable'']),
           Ref (scope @ [cid, ra_prefix props @ ''dev-vpc-tgw-attachment''])),
          (Ref (scope @ [cid, ra_prefix props @ ''-RouteTable'']),
           Ref (scope @ [cid, ra_prefix props @ ''prod-vpc-tgw-attachment''])),
          (Ref (scope @ [cid', ''VPN'']), vpnAttachmentId vprops)]"
    and "propagations (created w
           (snd (TgwVpnRouting scope cid' vprops (snd (TgwRouteAttachment scope cid props w))))) =
         [(Ref (scope @ [cid, ra_prefix props @ ''-RouteTable'']),
           Ref (scope @ [cid, ra_prefix props @ ''dev-vpc-tgw-attachment''])),
          (Ref (scope @ [cid, ra_prefix props @ ''-RouteTable'']),
           Ref (scope @ [cid, ra_prefix props @ ''prod-vpc-tgw-attachment''])),
          (Ref (scope @ [cid', ''VPN'']), vpnAttachmentId vprops),
          (vpcRouteTableId vprops, vpnAttachmentId vprops),
          (Ref (scope @ [cid', ''VPN'']), devAttachmentId vprops),
          (Ref (scope @ [cid', ''VPN'']), prodAttachmentId vprops)]"
proof -
  let ?w1 = "snd (TgwRouteAttachment scope cid props w)"
  have f: "fresh ?w1 (scope @ [cid'])"
    by (rule fresh_after_TgwRouteAttachment [OF assms])
  show "fst (TgwVpnRouting scope cid' vprops ?w1) = Inr (scope @ [cid'])"
    by (simp add: TgwVpnRouting_run [OF f])
  show "associations (created w (snd (TgwVpnRouting scope cid' vprops ?w1))) = 
         [(Ref (scope @ [cid, ra_prefix props @ ''-RouteTable'']),
           Ref (scope @ [cid, ra_prefix props @ ''dev-vpc-tgw-attachment''])),
          (Ref (scope @ [cid, ra_prefix props @ ''-RouteTable'']),
           Ref (scope @ [cid, ra_prefix props @ ''prod-vpc-tgw-attachment''])),
          (Ref (scope @ [cid', ''VPN'']), vpnAttachmentId vprops)]"
    unfolding TgwVpnRouting_run [OF f]
    by (simp add: TgwRouteAttachment_run [OF assms(1,4,5)] created_def associations_def)
  show "propagations (created w (snd (TgwVpnRouting scope cid' vprops ?w1))) =
         [(Ref (scope @ [cid, ra_prefix props @ ''-RouteTable'']),
           Ref (scope @ [cid, ra_prefix props @ ''dev-vpc-tgw-attachment''])),
          (Ref (scope @ [cid, ra_prefix props @ ''-RouteTable'']),
           Ref (scope @ [cid, ra_prefix props @ ''prod-vpc-tgw-attachment''])),
          (Ref (scope @ [cid', ''VPN'']), vpnAttachmentId vprops),
          (vpcRouteTableId vprops, vpnAttachmentId vprops),
          (Ref (scope @ [cid', ''VPN'']), devAttachmentId vprops),
          (Ref (scope @ [cid', ''VPN'']), prodAttachmentId vprops)]"
    unfolding TgwVpnRouting_run [OF f]
    by (simp add: TgwRouteAttachment_run [OF assms(1,4,5)] created_def propagations_def)
qed

lemma sample_wiring:
  "vpcRouteTableId sample_vpn_props = Ref ([] @ [''Routes'', ra_prefix sample_props @ ''-RouteTable''])"
  "devAttachmentId sample_vpn_props =
     Ref ([] @ [''Routes'', ra_prefix sample_props @ ''dev-vpc-tgw-attachment''])"
  "prodAttachmentId sample_vpn_props =
     Ref ([] @ [''Routes'', ra_prefix sample_props @ ''prod-vpc-tgw-attachment''])"
  "length (isolatedSubnets (developmentVpc sample_props)) \<le> 1"
  "length (isolatedSubnets (productionVpc sample_props)) \<le> 1"
  by (simp_all add: sample_vpn_props_def sample_props_def sample_vpc_def)

text \<open>
  Claim C3, as amended. When the VPN routing stack is handed the route table and the two
  attachments of the route attachment stack, the declared propagations are exactly six,
  in this order of creation: the development and the production attachment into the
  cloud route table, the VPN attachment into the VPN route table itself, the VPN
  attachment into the cloud route table, and the development and the production
  attachment into the VPN route table.
\<close>

theorem hub_propagations:
  assumes "fresh w (scope @ [cid])" and "fresh w (scope @ [cid'])" and "cid \<noteq> cid'"
    and "length (isolatedSubnets (developmentVpc props)) \<le> 1"
    and "length (isolatedSubnets (productionVpc props)) \<le> 1"
    and "vpcRouteTableId vprops = Ref (scope @ [cid, ra_prefix props @ ''-RouteTable''])"
    and "devAttachmentId vprops =
           Ref (scope @ [cid, ra_prefix props @ ''dev-vpc-tgw-attachment''])"
    and "prodAttachmentId vprops =
           Ref (scope @ [cid, ra_prefix props @ ''prod-vpc-tgw-attachment''])"
    and "w' = snd (TgwVpnRouting scope cid' vprops (snd (TgwRouteAttachment scope cid props w)))"
  shows "propagations (created w w') =
           [(vpcRouteTableId vprops, devAttachmentId vprops),
            (vpcRouteTableId vprops, prodAttachmentId vprops),
            (Ref (scope @ [cid', ''VPN'']), vpnAttachmentId vprops),
            (vpcRouteTableId vprops, vpnAttachmentId vprops),
            (Ref (scope @ [cid', ''VPN'']), devAttachmentId vprops),
            (Ref (scope @ [cid', ''VPN'']), prodAttachmentId vprops)]"
  unfolding assms(9) hub_topology_nodes(3) [OF assms(1-5)] assms(6-8) by simp

theorem hub_propagations_witness:
  "fresh empty_world ([] @ [''Routes'']) \<and> fresh empty_world ([] @ [''Vpn'']) \<and>
   propagations (created empty_world sample_topology) =
     [(Ref [''Routes'', ''Gateway--RouteTable''], Ref [''Routes'', ''Gateway-dev-vpc-tgw-attachment'']),
      (Ref [''Routes'', ''Gateway--RouteTable''], Ref [''Routes'', ''Gateway-prod-vpc-tgw-attachment'']),
      (Ref [''Vpn'', ''VPN''], Lit ''tgw-attach-vpn''),
      (Ref [''Routes'', ''Gateway--RouteTable''], Lit ''tgw-attach-vpn''),
      (Ref [''Vpn'', ''VPN''], Ref [''Routes'', ''Gateway-dev-vpc-tgw-attachment'']),
      (Ref [''Vpn'', ''VPN''], Ref [''Routes'', ''Gateway-prod-vpc-tgw-attachment''])]"
proof -
  have ne: "''Routes'' \<noteq> ''Vpn''" by simp
  have "propagations (created empty_world sample_topology) =
           [(vpcRouteTableId sample_vpn_props, devAttachmentId sample_vpn_props),
            (vpcRouteTableId sample_vpn_props, prodAttachmentId sample_vpn_props),
            (Ref ([] @ [''Vpn'', ''VPN'']), vpnAttachmentId sample_vpn_props),
            (vpcRouteTableId sample_vpn_props, vpnAttachmentId sample_vpn_props),
            (Ref ([] @ [''Vpn'', ''VPN'']), devAttachmentId sample_vpn_props),
            (Ref ([] @ [''Vpn'', ''VPN'']), prodAttachmentId sample_vpn_props)]"
    by (rule hub_propagations [OF fresh_empty fresh_empty ne sample_wiring(4,5,1,2,3)
          sample_topology_def])
  then show ?thesis
    by (simp add: fresh_empty sample_vpn_props_def)
qed

text \<open>
  Claim C3 as stated lists five propagations and no others. The construct
  \<^verbatim>\<open>VPNPropogation\<close> also propagates the VPN attachment into the VPN route table, which is
  none of the five.
\<close>

theorem vpn_self_propagation_counterexample:
  "(Ref [''Vpn'', ''VPN''], Lit ''tgw-attach-vpn'') \<in> set (propagations (nodes sample_topology)) \<and>
   (Ref [''Vpn'', ''VPN''], Lit ''tgw-attach-vpn'') \<notin> set
     [(Ref [''Routes'', ''Gateway--RouteTable''], Ref [''Routes'', ''Gateway-dev-vpc-tgw-attachment'']),
      (Ref [''Routes'', ''Gateway--RouteTable''], Ref [''Routes'', ''Gateway-prod-vpc-tgw-attachment'']),
      (Ref [''Routes'', ''Gateway--RouteTable''], Lit ''tgw-attach-vpn''),
      (Ref [''Vpn'', ''VPN''], Ref [''Routes'', ''Gateway-dev-vpc-tgw-attachment'']),
      (Ref [''Vpn'', ''VPN''], Ref [''Routes'', ''Gateway-prod-vpc-tgw-attachment''])]"
  by (simp add: sample_topology_def TgwRouteAttachment_def TgwVpnRouting_def eval_defs
        sample_props_def sample_vpn_props_def sample_vpc_def sample_subnet_def sample_hub_def
        empty_world_def propagations_def)

text \<open>
  Claim C4. In that composition the development and the production attachment are
  associated with the cloud route table only, the VPN attachment (an attachment other
  than those two) with the VPN route table only; the two route tables differ, and the
  VPN attachment is not associated with the cloud route table but propagated into it.
\<close>

theorem association_unique:
  assumes "fresh w (scope @ [cid])" and "fresh w (scope @ [cid'])" and "cid \<noteq> cid'"
    and "length (isolatedSubnets (developmentVpc props)) \<le> 1"
    and "length (isolatedSubnets (productionVpc props)) \<le> 1"
    and "vpcRouteTableId vprops = Ref (scope @ [cid, ra_prefix props @ ''-RouteTable''])"
    and "devAttachmentId vprops =
           Ref (scope @ [cid, ra_prefix props @ ''dev-vpc-tgw-attachment''])"
    and "prodAttachmentId vprops =
           Ref (scope @ [cid, ra_prefix props @ ''prod-vpc-tgw-attachment''])"
    and "vpnAttachmentId vprops \<noteq> devAttachmentId vprops"
    and "vpnAttachmentId vprops \<noteq> prodAttachmentId vprops"
    and "w' = snd (TgwVpnRouting scope cid' vprops (snd (TgwRouteAttachment scope cid props w)))"
  shows "domains_of (associations (created w w')) (devAttachmentId vprops) =
           [vpcRouteTableId vprops]
       \<and> domains_of (associations (created w w')) (prodAttachmentId vprops) =
           [vpcRouteTableId vprops]
       \<and> domains_of (associations (created w w')) (vpnAttachmentId vprops) =
           [Ref (scope @ [cid', ''VPN''])]
       \<and> Ref (scope @ [cid', ''VPN'']) \<noteq> vpcRouteTableId vprops
       \<and> (vpcRouteTableId vprops, vpnAttachmentId vprops)
           \<notin> set (associations (created w w'))
       \<and> (vpcRouteTableId vprops, vpnAttachmentId vprops)
           \<in> set (propagations (created w w'))"
proof -
  have a: "associations (created w w') =
         [(vpcRouteTableId vprops, devAttachmentId vprops),
          (vpcRouteTableId vprops, prodAttachmentId vprops),
          (Ref (scope @ [cid', ''VPN'']), vpnAttachmentId vprops)]"
    unfolding assms(11) hub_topology_nodes(2) [OF assms(1-5)] assms(6-8) by simp
  have p: "(vpcRouteTableId vprops, vpnAttachmentId vprops)
           \<in> set (propagations (created w w'))"
    unfolding assms(11) hub_topology_nodes(3) [OF assms(1-5)] by simp
  have d: "devAttachmentId vprops \<noteq> prodAttachmentId vprops"
    unfolding assms(7,8) by simp
  have r: "Ref (scope @ [cid', ''VPN'']) \<noteq> vpcRouteTableId vprops"
    unfolding assms(6) using assms(3) by simp
  show ?thesis
    unfolding a using p d r assms(9,10)
    by (auto simp add: domains_of_def)
qed

theorem association_unique_witness:
  "fresh empty_world ([] @ [''Routes'']) \<and> fresh empty_world ([] @ [''Vpn'']) \<and>
   vpnAttachmentId sample_vpn_props \<noteq> devAttachmentId sample_vpn_props \<and>
   vpnAttachmentId sample_vpn_props \<noteq> prodAttachmentId sample_vpn_props \<and>
   domains_of (associations (created empty_world sample_topology))
     (Ref [''Routes'', ''Gateway-dev-vpc-tgw-attachment'']) =
       [Ref [''Routes'', ''Gateway--RouteTable'']] \<and>
   domains_of (associations (created empty_world sample_topology))
     (Ref [''Routes'', ''Gateway-prod-vpc-tgw-attachment'']) =
       [Ref [''Routes'', ''Gateway--RouteTable'']] \<and>
   domains_of (associations (created empty_world sample_topology))
     (Lit ''tgw-attach-vpn'') = [Ref [''Vpn'', ''VPN'']]"
proof -
  have ne: "''Routes'' \<noteq> ''Vpn''" by simp
  have v1: "vpnAttachmentId sample_vpn_props \<noteq> devAttachmentId sample_vpn_props"
    and v2: "vpnAttachmentId sample_vpn_props \<noteq> prodAttachmentId sample_vpn_props"
    by (simp_all add: sample_vpn_props_def)
  note th = association_unique [OF fresh_empty fresh_empty ne sample_wiring(4,5,1,2,3) v1 v2
      sample_topology_def]
  from th v1 v2 show ?thesis
    by (simp add: fresh_empty sample_vpn_props_def)
qed

section \<open>Further auxiliary facts\<close>

subsection \<open>Runs of the gateway stack\<close>

lemma Gateway_run:
  assumes "fresh w (scope @ [cid])"
    and "gw_prefix props = Some p"
    and "customerSideAsn props = Some a"
    and "onPremIpAddress props = Some ip"
  shows "Gateway scope cid props w =
    (Inr \<lparr>cfnTransitGateway = scope @ [cid, p @ ''-TGW''],
          cfnCustomerGateway = scope @ [cid, p @ ''-CGW''],
          cfnVPNConnection = scope @ [cid, p @ ''-VPN'']\<rparr>,
     w\<lparr>nodes := nodes w @
       [\<lparr>node_path = scope @ [cid], res = StackNode, dependsOn = []\<rparr>,
        \<lparr>node_path = scope @ [cid, p @ ''-TGW''],
         res = CfnTransitGateway \<lparr>
           amazonSideAsn = gw_amazonSideAsn props,
           description = ''TGW for hybrid networking'',
           autoAcceptSharedAttachments = ''enable'',
           defaultRouteTableAssociation = ''disable'',
           defaultRouteTablePropagation = ''disable'',
           dnsSupport = ''enable'',
           vpnEcmpSupport = ''enable'',
           multicastSupport = ''enable'',
           tgw_tags = [(''Name'', p @ ''-TGW'')]\<rparr>,
         dependsOn = []\<rparr>,
        \<lparr>node_path = scope @ [cid, p @ ''-CGW''],
         res = CfnCustomerGateway (Some a) (Some ip) ''ipsec.1'' [(''Name'', p @ ''-CGW'')],
         dependsOn = []\<rparr>,
        \<lparr>node_path = scope @ [cid, p @ ''-VPN''],
         res = CfnVPNConnection (Ref (scope @ [cid, p @ ''-TGW'']))
                 (Ref (scope @ [cid, p @ ''-CGW''])) False ''ipsec.1''
                 [(''Name'', p @ ''-VPN'')],
         dependsOn = []\<rparr>,
        \<lparr>node_path = scope @ [cid, ''transitGatewayId''],
         res = CfnOutput ''Transit Gateway ID'' (Some ''TransitGatewayId'')
                 (Ref (scope @ [cid, p @ ''-TGW''])),
         dependsOn = []\<rparr>,
        \<lparr>node_path = scope @ [cid, ''customerGatewayId''],
         res = CfnOutput ''Customer Gateway ID'' (Some ''CustomerGatewayId'')
                 (Ref (scope @ [cid, p @ ''-CGW''])),
         dependsOn = []\<rparr>,
        \<lparr>node_path = scope @ [cid, ''vpnConnectionId''],
         res = CfnOutput ''VPN Connection ID'' (Some ''VPNConnectionId'')
                 (Ref (scope @ [cid, p @ ''-VPN''])),
         dependsOn = []\<rparr>]\<rparr>)"
  using assms
  by (simp add: Gateway_def new_CfnCustomerGateway_def requireProperty_def run_simps)

subsection \<open>Invariants kept by every construction step\<close>

lemma preserves_return: "preserves I (return a)"
  by (simp add: preserves_def return_def)

lemma preserves_throw: "preserves I (throw e)"
  by (simp add: preserves_def throw_def)

lemma preserves_nonNull: "preserves I (nonNull x)"
  by (cases x) (simp_all add: nonNull_def preserves_return preserves_throw)

lemma preserves_requireProperty: "preserves I (requireProperty v name)"
  by (cases v) (simp_all add: requireProperty_def preserves_return preserves_throw)

lemma preserves_and_then:
  assumes "preserves I m" and "\<And>a. preserves I (f a)"
  shows "preserves I (and_then m f)"
  unfolding preserves_def
proof (intro allI impI)
  fix w assume "I w"
  with assms(1) have 1: "I (snd (m w))"
    by (simp add: preserves_def)
  show "I (snd (and_then m f w))"
  proof (cases "fst (m w)")
    case (Inl e)
    then show ?thesis using 1
      by (cases "m w") (simp add: and_then_def)
  next
    case (Inr a)
    moreover from assms(2) 1 have "I (snd (f a (snd (m w))))"
      by (simp add: preserves_def)
    ultimately show ?thesis
      by (cases "m w") (simp add: and_then_def)
  qed
qed

lemma preserves_forEach:
  assumes "\<And>x. preserves I (body x)"
  shows "preserves I (forEach xs body)"
  by (induction xs) (simp_all add: preserves_return preserves_and_then assms)

lemma all_res_new: "Q r \<Longrightarrow> preserves (all_res Q) (new scope cid r)"
  by (simp add: preserves_def all_res_def new_def)

lemma preserves_if:
  "preserves I a \<Longrightarrow> preserves I b \<Longrightarrow> preserves I (if c then a else b)"
  by simp

lemma all_res_addDependsOn: "preserves (all_res Q) (addDependsOn c t)"
  by (auto simp add: preserves_def all_res_def addDependsOn_def list_all_iff
        split: option.splits)

lemma all_res_node_addDependency: "preserves (all_res Q) (node_addDependency c t)"
  by (simp add: preserves_def all_res_def node_addDependency_def)

lemma all_res_uuidv4: "preserves (all_res Q) (uuidv4 rng)"
  by (simp add: preserves_def all_res_def uuidv4_def)

lemma distinct_new: "preserves distinct_paths (new scope cid r)"
  by (simp add: preserves_def distinct_paths_def new_def)

lemma distinct_addDependsOn: "preserves distinct_paths (addDependsOn c t)"
proof -
  have eq: "map node_path (map (\<lambda>n. if node_path n = c then n\<lparr>dependsOn := g n\<rparr> else n) ns) =
              map node_path ns"
    for ns :: "node list" and g
    by (induction ns) simp_all
  show ?thesis
    by (simp add: preserves_def distinct_paths_def addDependsOn_def eq
          split: option.splits del: map_map)
qed

lemma distinct_node_addDependency: "preserves distinct_paths (node_addDependency c t)"
  by (simp add: preserves_def distinct_paths_def node_addDependency_def)

lemma distinct_uuidv4: "preserves distinct_paths (uuidv4 rng)"
  by (simp add: preserves_def distinct_paths_def uuidv4_def)

lemmas preserves_intros =
  preserves_and_then preserves_forEach preserves_if preserves_return preserves_throw
  preserves_nonNull preserves_requireProperty all_res_new all_res_addDependsOn
  all_res_node_addDependency all_res_uuidv4 distinct_new distinct_addDependsOn
  distinct_node_addDependency distinct_uuidv4

lemma no_default_binding_app:
  "preserves (all_res (\<lambda>r. \<not> default_binding r)) (app cfnParams)"
  unfolding app_def BaseNetworkStack_def VpcWithEc2_def SimulatedOnPrem_def new_Vpc_def
    Gateway_def new_CfnCustomerGateway_def TgwRouteAttachment_def Let_def
  by (intro preserves_intros) simp_all

lemma implicit_bindings_none:
  "all_res (\<lambda>r. \<not> default_binding r) w \<Longrightarrow> implicit_bindings (nodes w) = []"
proof -
  assume "all_res (\<lambda>r. \<not> default_binding r) w"
  then have "filter (\<lambda>h. default_binding (res h)) (nodes w) = []"
    by (simp add: all_res_def list_all_iff filter_empty_conv)
  then show ?thesis
    by (simp add: implicit_bindings_def)
qed

subsection \<open>Runs of the subnet routing\<close>

lemma and_then_Inr: "m w = (Inr a, w') \<Longrightarrow> and_then m f w = f a w'"
  by (simp add: and_then_def)

lemma world_eqI:
  "nodes w = nodes w' \<Longrightarrow> uuid_calls w = uuid_calls w' \<Longrightarrow>
   stackDependencies w = stackDependencies w' \<Longrightarrow>
   nodeDependencies w = nodeDependencies w' \<Longrightarrow> w = (w' :: world)"
  by simp

text \<open>A new dependency of a stack on another closes no cycle that was not there.\<close>

lemma depends_on_insert:
  assumes "s \<noteq> s'" and "\<not> depends_on deps s' s"
  shows "\<not> depends_on (deps @ [(s, s')]) s' s"
proof -
  from assms have n: "(s', s) \<notin> (set deps)\<^sup>*"
    by (auto simp add: depends_on_def rtrancl_eq_or_trancl)
  have "(s', s) \<notin> (insert (s, s') (set deps))\<^sup>+"
    using n by (auto simp add: trancl_insert dest: trancl_into_rtrancl)
  with assms(1) show ?thesis
    by (simp add: depends_on_def)
qed

text \<open>
  The loop of the subnet routing, when the stacks of the scope and of the transit gateway
  are found and the dependency between them, if they differ, closes no cycle.
\<close>

lemma SubnetRouting_loop:
  fixes ss :: "ISubnet list"
  assumes "inj rng"
    and "\<And>k. uuid_calls w \<le> k \<Longrightarrow>
           this @ [p @ rng k @ ''-tgw-route''] \<notin> node_path ` set (nodes w)"
    and "\<And>x. is_stack (nodes w) (this @ [x]) = False"
    and "stackOf (nodes w) this = Some s"
    and "stackOf (nodes w) t = Some s'"
    and "s = s' \<or> \<not> depends_on (stackDependencies w) s' s"
  shows "forEach ss (\<lambda>subnet.
        and_then (nonNull (Some p)) (\<lambda>prefix.
        and_then (uuidv4 rng) (\<lambda>u.
        and_then (nonNull (Some t)) (\<lambda>tgw.
        and_then (new this (prefix @ u @ ''-tgw-route'')
            (CfnRoute (routeTableId subnet) (Lit ''0.0.0.0/0'') (Ref tgw))) (\<lambda>route.
        addDependsOn route tgw))))) w =
      (Inr (),
       w\<lparr>nodes := nodes w @ map (\<lambda>(k, subnet).
                \<lparr>node_path = this @ [p @ rng k @ ''-tgw-route''],
                 res = CfnRoute (routeTableId subnet) (Lit ''0.0.0.0/0'') (Ref t),
                 dependsOn = (if s = s' then [t] else [])\<rparr>) (enumerate (uuid_calls w) ss),
         uuid_calls := uuid_calls w + length ss,
         stackDependencies :=
           (if s = s' \<or> ss = [] \<or> (s, s') \<in> set (stackDependencies w)
            then stackDependencies w else stackDependencies w @ [(s, s')])\<rparr>)"
proof -
  define body :: "ISubnet \<Rightarrow> unit build" where "body = (\<lambda>subnet.
        and_then (nonNull (Some p)) (\<lambda>prefix.
        and_then (uuidv4 rng) (\<lambda>u.
        and_then (nonNull (Some t)) (\<lambda>tgw.
        and_then (new this (prefix @ u @ ''-tgw-route'')
            (CfnRoute (routeTableId subnet) (Lit ''0.0.0.0/0'') (Ref tgw))) (\<lambda>route.
        addDependsOn route tgw)))))"
  define mk :: "nat \<times> ISubnet \<Rightarrow> node" where "mk = (\<lambda>(k, subnet).
                \<lparr>node_path = this @ [p @ rng k @ ''-tgw-route''],
                 res = CfnRoute (routeTableId subnet) (Lit ''0.0.0.0/0'') (Ref t),
                 dependsOn = (if s = s' then [t] else [])\<rparr>)"
  define after :: "(cpath \<times> cpath) list \<Rightarrow> (cpath \<times> cpath) list" where
    "after = (\<lambda>deps. if s = s' \<or> (s, s') \<in> set deps then deps else deps @ [(s, s')])"
  have "forEach ss body w =
      (Inr (), w\<lparr>nodes := nodes w @ map mk (enumerate (uuid_calls w) ss),
                 uuid_calls := uuid_calls w + length ss,
                 stackDependencies :=
                   (if ss = [] then stackDependencies w else after (stackDependencies w))\<rparr>)"
    using assms(2-6)
  proof (induction ss arbitrary: w)
    case Nil
    then show ?case by (simp add: return_def)
  next
    case (Cons s0 ss)
    let ?r = "this @ [p @ rng (uuid_calls w) @ ''-tgw-route'']"
    let ?n0 = "\<lparr>node_path = ?r,
                res = CfnRoute (routeTableId s0) (Lit ''0.0.0.0/0'') (Ref t),
                dependsOn = []\<rparr>"
    let ?w1 = "w\<lparr>nodes := nodes w @ [mk (uuid_calls w, s0)],
                  uuid_calls := Suc (uuid_calls w),
                  stackDependencies := after (stackDependencies w)\<rparr>"
    have notin: "?r \<notin> node_path ` set (nodes w)"
      using Cons.prems(1) [of "uuid_calls w"] by simp
    have old: "map (\<lambda>n. if node_path n = ?r then g n else n) (nodes w) = nodes w" for g
    proof (rule map_idI)
      fix n assume "n \<in> set (nodes w)"
      with notin have "node_path n \<noteq> ?r"
        by (metis image_eqI)
      then show "(if node_path n = ?r then g n else n) = n"
        by simp
    qed
    have st_r: "stackOf (nodes w @ [?n0]) ?r = Some s"
      using Cons.prems(2) [of "p @ rng (uuid_calls w) @ ''-tgw-route''"] Cons.prems(3)
      by (simp add: stackOf_snoc is_stack_append is_stack_Cons is_stack_Nil stackOf_extend)
    have st_t: "stackOf (nodes w @ [?n0]) t = Some s'"
      using Cons.prems(4) by (simp add: stackOf_extend)
    have one: "body s0 w = (Inr (), ?w1)"
      using notin Cons.prems(5)
      by (auto simp add: body_def mk_def after_def and_then_def new_def return_def
            nonNull_def uuidv4_def addDependsOn_def st_r st_t old intro!: world_eqI)
    have clash: "this @ [p @ rng k @ ''-tgw-route''] \<notin> node_path ` set (nodes ?w1)"
      if "uuid_calls ?w1 \<le> k" for k
    proof -
      from that have "uuid_calls w \<le> k" and "k \<noteq> uuid_calls w" by simp_all
      with Cons.prems(1) [of k] assms(1) show ?thesis
        by (auto simp add: mk_def dest: injD)
    qed
    have nostack: "is_stack (nodes ?w1) (this @ [x]) = False" for x
      using Cons.prems(2) [of x]
      by (simp add: is_stack_append is_stack_Cons is_stack_Nil mk_def)
    have ext: "list_all (\<lambda>n. res n \<noteq> StackNode) [mk (uuid_calls w, s0)]"
      by (simp add: mk_def)
    have st1: "stackOf (nodes ?w1) this = Some s" "stackOf (nodes ?w1) t = Some s'"
      using Cons.prems(3,4) ext by (simp_all add: stackOf_extend)
    have acyc: "s = s' \<or> \<not> depends_on (stackDependencies ?w1) s' s"
      using Cons.prems(5) depends_on_insert [of s s' "stackDependencies w"]
      by (auto simp add: after_def)
    have idem: "after (after deps) = after deps" for deps
      by (simp add: after_def)
    have "forEach (s0 # ss) body w = forEach ss body ?w1"
      by (simp add: and_then_Inr [where m = "body s0" and w = w, OF one])
    also have "\<dots> = (Inr (), ?w1\<lparr>nodes := nodes ?w1 @ map mk (enumerate (uuid_calls ?w1) ss),
                 uuid_calls := uuid_calls ?w1 + length ss,
                 stackDependencies :=
                   (if ss = [] then stackDependencies ?w1
                    else after (stackDependencies ?w1))\<rparr>)"
      by (rule Cons.IH [OF clash nostack st1 acyc])
    also have "\<dots> = (Inr (), w\<lparr>nodes := nodes w @ map mk (enumerate (uuid_calls w) (s0 # ss)),
                 uuid_calls := uuid_calls w + length (s0 # ss),
                 stackDependencies :=
                   (if s0 # ss = [] then stackDependencies w
                    else after (stackDependencies w))\<rparr>)"
      by (auto simp add: idem intro!: world_eqI)
    finally show ?case .
  qed
  then show ?thesis
    unfolding body_def mk_def after_def by (simp cong: if_cong)
qed

text \<open>The first turn of the loop, when the dependency is refused.\<close>

lemma SubnetRouting_loop_throws:
  fixes ss :: "ISubnet list"
  assumes "this @ [p @ rng (uuid_calls w) @ ''-tgw-route''] \<notin> node_path ` set (nodes w)"
    and "\<And>x. is_stack (nodes w) (this @ [x]) = False"
    and "stackOf (nodes w) this = S"
    and "stackOf (nodes w) t = T"
    and "refusal S T (stackDependencies w) = Some e"
    and "refusal = (\<lambda>S T deps. case S of None \<Rightarrow> Some NoStackFound
            | Some s \<Rightarrow> (case T of None \<Rightarrow> Some NoStackFound
               | Some s' \<Rightarrow> if s \<noteq> s' \<and> depends_on deps s' s
                            then Some (CyclicReference s' s) else None))"
  shows "forEach (s0 # ss) (\<lambda>subnet.
        and_then (nonNull (Some p)) (\<lambda>prefix.
        and_then (uuidv4 rng) (\<lambda>u.
        and_then (nonNull (Some t)) (\<lambda>tgw.
        and_then (new this (prefix @ u @ ''-tgw-route'')
            (CfnRoute (routeTableId subnet) (Lit ''0.0.0.0/0'') (Ref tgw))) (\<lambda>route.
        addDependsOn route tgw))))) w =
      (Inl e,
       w\<lparr>nodes := nodes w @
            [\<lparr>node_path = this @ [p @ rng (uuid_calls w) @ ''-tgw-route''],
              res = CfnRoute (routeTableId s0) (Lit ''0.0.0.0/0'') (Ref t),
              dependsOn = []\<rparr>],
         uuid_calls := Suc (uuid_calls w)\<rparr>)"
proof -
  let ?r = "this @ [p @ rng (uuid_calls w) @ ''-tgw-route'']"
  let ?n0 = "\<lparr>node_path = ?r,
              res = CfnRoute (routeTableId s0) (Lit ''0.0.0.0/0'') (Ref t),
              dependsOn = []\<rparr>"
  have st_r: "stackOf (nodes w @ [?n0]) ?r = S"
    using assms(2) [of "p @ rng (uuid_calls w) @ ''-tgw-route''"] assms(3)
    by (simp add: stackOf_snoc is_stack_append is_stack_Cons is_stack_Nil stackOf_extend)
  have st_t: "stackOf (nodes w @ [?n0]) t = T"
    using assms(4) by (simp add: stackOf_extend)
  show ?thesis
    using assms(1,5) unfolding assms(6)
    by (auto simp add: and_then_def new_def return_def nonNull_def uuidv4_def
          addDependsOn_def st_r st_t split: option.splits if_splits intro!: world_eqI)
qed

lemma enumerate_routes:
  "map f (map (\<lambda>(k, subnet). g k subnet) (enumerate c ss)) = map h ss"
  if "\<And>k subnet. f (g k subnet) = h subnet"
  using that by (induction ss arbitrary: c) simp_all

text \<open>The world right after the construct of the subnet routing is registered.\<close>

lemma SubnetRouting_start:
  assumes "fresh w (scope @ [cid])"
  defines "w0 \<equiv> w\<lparr>nodes := nodes w @ [\<lparr>node_path = scope @ [cid], res = ConstructNode,
                                          dependsOn = []\<rparr>]\<rparr>"
  shows "new scope cid ConstructNode w = (Inr (scope @ [cid]), w0)"
    and "(scope @ [cid]) @ [x] \<notin> node_path ` set (nodes w0)"
    and "is_stack (nodes w0) ((scope @ [cid]) @ [x]) = False"
    and "stackOf (nodes w0) (scope @ [cid]) = stackOf (nodes w) scope"
    and "stackOf (nodes w0) t = stackOf (nodes w) t"
  using assms(1) unfolding w0_def
  by (simp_all add: new_def fresh_not_mem stackOf_snoc is_stack_append is_stack_Cons
        is_stack_Nil fresh_not_stack stackOf_extend)

lemma SubnetRouting_run:
  assumes "fresh w (scope @ [cid])" and "inj rng"
    and "sr_prefix props = Some p" and "sr_vpc props = Some v"
    and "sr_transitGateway props = Some t"
    and "stackOf (nodes w) scope = Some s" and "stackOf (nodes w) t = Some s'"
    and "s = s' \<or> \<not> depends_on (stackDependencies w) s' s"
  shows "SubnetRouting rng scope cid props w =
      (Inr (scope @ [cid]),
       w\<lparr>nodes := nodes w @ \<lparr>node_path = scope @ [cid], res = ConstructNode, dependsOn = []\<rparr>
            # map (\<lambda>(k, subnet).
                \<lparr>node_path = (scope @ [cid]) @ [p @ rng k @ ''-tgw-route''],
                 res = CfnRoute (routeTableId subnet) (Lit ''0.0.0.0/0'') (Ref t),
                 dependsOn = (if s = s' then [t] else [])\<rparr>)
                (enumerate (uuid_calls w) (isolatedSubnets v)),
         uuid_calls := uuid_calls w + length (isolatedSubnets v),
         stackDependencies :=
           (if s = s' \<or> isolatedSubnets v = [] \<or> (s, s') \<in> set (stackDependencies w)
            then stackDependencies w else stackDependencies w @ [(s, s')])\<rparr>)"
proof -
  let ?w0 = "w\<lparr>nodes := nodes w @ [\<lparr>node_path = scope @ [cid], res = ConstructNode,
                                     dependsOn = []\<rparr>]\<rparr>"
  note start = SubnetRouting_start [OF assms(1)]
  have acyc: "s = s' \<or> \<not> depends_on (stackDependencies ?w0) s' s"
    using assms(8) by simp
  have loop: "forEach (isolatedSubnets v) (\<lambda>subnet.
        and_then (nonNull (Some p)) (\<lambda>prefix.
        and_then (uuidv4 rng) (\<lambda>u.
        and_then (nonNull (Some t)) (\<lambda>tgw.
        and_then (new (scope @ [cid]) (prefix @ u @ ''-tgw-route'')
            (CfnRoute (routeTableId subnet) (Lit ''0.0.0.0/0'') (Ref tgw))) (\<lambda>route.
        addDependsOn route tgw))))) ?w0 =
      (Inr (),
       ?w0\<lparr>nodes := nodes ?w0 @ map (\<lambda>(k, subnet).
                \<lparr>node_path = (scope @ [cid]) @ [p @ rng k @ ''-tgw-route''],
                 res = CfnRoute (routeTableId subnet) (Lit ''0.0.0.0/0'') (Ref t),
                 dependsOn = (if s = s' then [t] else [])\<rparr>)
                (enumerate (uuid_calls ?w0) (isolatedSubnets v)),
         uuid_calls := uuid_calls ?w0 + length (isolatedSubnets v),
         stackDependencies :=
           (if s = s' \<or> isolatedSubnets v = [] \<or> (s, s') \<in> set (stackDependencies ?w0)
            then stackDependencies ?w0 else stackDependencies ?w0 @ [(s, s')])\<rparr>)"
  proof (rule SubnetRouting_loop [OF assms(2) start(2) start(3) _ _ acyc])
    show "stackOf (nodes ?w0) (scope @ [cid]) = Some s"
      by (simp only: start(4) assms(6))
    show "stackOf (nodes ?w0) t = Some s'"
      by (simp only: start(5) assms(7))
  qed
  have nn: "nonNull (Some v) ?w0 = (Inr v, ?w0)"
    by (simp add: nonNull_def return_def)
  show ?thesis
    unfolding SubnetRouting_def assms(3-5)
      and_then_Inr [where m = "new scope cid ConstructNode" and w = w, OF start(1)]
      and_then_Inr [where m = "nonNull (Some v)", OF nn]
      and_then_Inr [where m = "forEach (isolatedSubnets v) b" for b, OF loop]
    by (auto simp add: return_def intro!: world_eqI)
qed

subsection \<open>What a run of the subnet routing leaves in the tree\<close>

lemma routes_of_made:
  "routes (map (\<lambda>(k, subnet). \<lparr>node_path = f k, res = CfnRoute (g subnet) d h, dependsOn = e\<rparr>) xs)
     = map (\<lambda>(k, subnet). \<lparr>node_path = f k, res = CfnRoute (g subnet) d h, dependsOn = e\<rparr>) xs"
  by (induction xs) (auto simp add: routes_def)

lemma SubnetRouting_created:
  assumes "fresh w (scope @ [cid])" and "inj rng"
    and "sr_prefix props = Some p" and "sr_vpc props = Some v"
    and "sr_transitGateway props = Some t"
    and "stackOf (nodes w) scope = Some s" and "stackOf (nodes w) t = Some s'"
    and "s = s' \<or> \<not> depends_on (stackDependencies w) s' s"
  shows "created w (snd (SubnetRouting rng scope cid props w)) =
      \<lparr>node_path = scope @ [cid], res = ConstructNode, dependsOn = []\<rparr>
            # map (\<lambda>(k, subnet).
                \<lparr>node_path = (scope @ [cid]) @ [p @ rng k @ ''-tgw-route''],
                 res = CfnRoute (routeTableId subnet) (Lit ''0.0.0.0/0'') (Ref t),
                 dependsOn = (if s = s' then [t] else [])\<rparr>)
                (enumerate (uuid_calls w) (isolatedSubnets v))"
  unfolding SubnetRouting_run [OF assms] by (simp add: created_def)

lemma SubnetRouting_routes:
  assumes "fresh w (scope @ [cid])" and "inj rng"
    and "sr_prefix props = Some p" and "sr_vpc props = Some v"
    and "sr_transitGateway props = Some t"
    and "stackOf (nodes w) scope = Some s" and "stackOf (nodes w) t = Some s'"
    and "s = s' \<or> \<not> depends_on (stackDependencies w) s' s"
  shows "routes (created w (snd (SubnetRouting rng scope cid props w))) =
           map (\<lambda>(k, subnet).
                \<lparr>node_path = (scope @ [cid]) @ [p @ rng k @ ''-tgw-route''],
                 res = CfnRoute (routeTableId subnet) (Lit ''0.0.0.0/0'') (Ref t),
                 dependsOn = (if s = s' then [t] else [])\<rparr>)
             (enumerate (uuid_calls w) (isolatedSubnets v))"
  unfolding SubnetRouting_created [OF assms]
  using routes_of_made [of "\<lambda>k. (scope @ [cid]) @ [p @ rng k @ ''-tgw-route'']"
        routeTableId "Lit ''0.0.0.0/0''" "Ref t" "if s = s' then [t] else []"
        "enumerate (uuid_calls w) (isolatedSubnets v)"]
  by (simp add: routes_def)

text \<open>Without isolated subnets the loop is empty, whatever the stacks.\<close>

lemma SubnetRouting_empty:
  assumes "fresh w (scope @ [cid])" and "sr_vpc props = Some v" and "isolatedSubnets v = []"
  shows "SubnetRouting rng scope cid props w =
      (Inr (scope @ [cid]),
       w\<lparr>nodes := nodes w @ [\<lparr>node_path = scope @ [cid], res = ConstructNode,
                               dependsOn = []\<rparr>]\<rparr>)"
  using assms by (simp add: SubnetRouting_def run_simps)

text \<open>With an isolated subnet and a dependency that is refused, the first turn throws.\<close>

lemma SubnetRouting_throws:
  assumes "fresh w (scope @ [cid])"
    and "sr_prefix props = Some p" and "sr_vpc props = Some v"
    and "sr_transitGateway props = Some t"
    and "isolatedSubnets v = s0 # rest"
    and "refusal (stackOf (nodes w) scope) (stackOf (nodes w) t) (stackDependencies w) = Some e"
    and "refusal = (\<lambda>S T deps. case S of None \<Rightarrow> Some NoStackFound
            | Some s \<Rightarrow> (case T of None \<Rightarrow> Some NoStackFound
               | Some s' \<Rightarrow> if s \<noteq> s' \<and> depends_on deps s' s
                            then Some (CyclicReference s' s) else None))"
  shows "SubnetRouting rng scope cid props w =
      (Inl e,
       w\<lparr>nodes := nodes w @
            [\<lparr>node_path = scope @ [cid], res = ConstructNode, dependsOn = []\<rparr>,
             \<lparr>node_path = (scope @ [cid]) @ [p @ rng (uuid_calls w) @ ''-tgw-route''],
              res = CfnRoute (routeTableId s0) (Lit ''0.0.0.0/0'') (Ref t),
              dependsOn = []\<rparr>],
         uuid_calls := Suc (uuid_calls w)\<rparr>)"
proof -
  let ?w0 = "w\<lparr>nodes := nodes w @ [\<lparr>node_path = scope @ [cid], res = ConstructNode,
                                     dependsOn = []\<rparr>]\<rparr>"
  note start = SubnetRouting_start [OF assms(1)]
  have r: "refusal (stackOf (nodes w) scope) (stackOf (nodes w) t) (stackDependencies ?w0) = Some e"
    using assms(6) by simp
  have loop: "forEach (s0 # rest) (\<lambda>subnet.
        and_then (nonNull (Some p)) (\<lambda>prefix.
        and_then (uuidv4 rng) (\<lambda>u.
        and_then (nonNull (Some t)) (\<lambda>tgw.
        and_then (new (scope @ [cid]) (prefix @ u @ ''-tgw-route'')
            (CfnRoute (routeTableId subnet) (Lit ''0.0.0.0/0'') (Ref tgw))) (\<lambda>route.
        addDependsOn route tgw))))) ?w0 =
      (Inl e,
       ?w0\<lparr>nodes := nodes ?w0 @
            [\<lparr>node_path = (scope @ [cid]) @ [p @ rng (uuid_calls ?w0) @ ''-tgw-route''],
              res = CfnRoute (routeTableId s0) (Lit ''0.0.0.0/0'') (Ref t),
              dependsOn = []\<rparr>],
         uuid_calls := Suc (uuid_calls ?w0)\<rparr>)"
    by (rule SubnetRouting_loop_throws [OF start(2) start(3) start(4) start(5) r assms(7)])
  have nn: "nonNull (Some v) ?w0 = (Inr v, ?w0)"
    by (simp add: nonNull_def return_def)
  have thrown: "and_then m f u = (Inl e', u')" if "m u = (Inl e', u')"
    for m :: "unit build" and f :: "unit \<Rightarrow> cpath build" and u u' e'
    using that by (simp add: and_then_def)
  show ?thesis
    unfolding SubnetRouting_def assms(2-5)
      and_then_Inr [where m = "new scope cid ConstructNode" and w = w, OF start(1)]
      and_then_Inr [where m = "nonNull (Some v)", OF nn]
      thrown [where m = "forEach (s0 # rest) b" for b, OF loop]
    by (auto intro!: world_eqI)
qed

text \<open>
  What a run shows apart from the keys of its routes does not depend on the random
  identifiers, as long as they do not repeat.
\<close>

lemma SubnetRouting_up_to_keys:
  assumes "fresh w (scope @ [cid])"
    and "sr_prefix props = Some p" and "sr_vpc props = Some v"
    and "sr_transitGateway props = Some t"
  shows "\<exists>r rs ds. \<forall>rng. inj rng \<longrightarrow>
           fst (SubnetRouting rng scope cid props w) = r \<and>
           map res (created w (snd (SubnetRouting rng scope cid props w))) = rs \<and>
           map dependsOn (created w (snd (SubnetRouting rng scope cid props w))) = ds"
proof (cases "isolatedSubnets v")
  case Nil
  have "\<forall>rng. inj rng \<longrightarrow>
           fst (SubnetRouting rng scope cid props w) = Inr (scope @ [cid]) \<and>
           map res (created w (snd (SubnetRouting rng scope cid props w))) = [ConstructNode] \<and>
           map dependsOn (created w (snd (SubnetRouting rng scope cid props w))) = [[]]"
    by (simp add: SubnetRouting_empty [OF assms(1,3) Nil] created_def)
  then show ?thesis by blast
next
  case (Cons s0 rest)
  define refusal :: "cpath option \<Rightarrow> cpath option \<Rightarrow> (cpath \<times> cpath) list \<Rightarrow> error option"
    where "refusal = (\<lambda>S T deps. case S of None \<Rightarrow> Some NoStackFound
            | Some s \<Rightarrow> (case T of None \<Rightarrow> Some NoStackFound
               | Some s' \<Rightarrow> if s \<noteq> s' \<and> depends_on deps s' s
                            then Some (CyclicReference s' s) else None))"
  show ?thesis
  proof (cases "refusal (stackOf (nodes w) scope) (stackOf (nodes w) t) (stackDependencies w)")
    case None
    then obtain s s' where st: "stackOf (nodes w) scope = Some s" "stackOf (nodes w) t = Some s'"
        "s = s' \<or> \<not> depends_on (stackDependencies w) s' s"
      by (auto simp add: refusal_def split: option.splits if_splits)
    have "\<forall>rng. inj rng \<longrightarrow>
           fst (SubnetRouting rng scope cid props w) = Inr (scope @ [cid]) \<and>
           map res (created w (snd (SubnetRouting rng scope cid props w))) =
             ConstructNode # map (\<lambda>subnet. CfnRoute (routeTableId subnet) (Lit ''0.0.0.0/0'') (Ref t))
               (isolatedSubnets v) \<and>
           map dependsOn (created w (snd (SubnetRouting rng scope cid props w))) =
             [] # map (\<lambda>subnet. if s = s' then [t] else []) (isolatedSubnets v)"
    proof (intro allI impI)
      fix rng :: "nat \<Rightarrow> string" assume i: "inj rng"
      note run = SubnetRouting_run [OF assms(1) i assms(2-4) st]
      note cr = SubnetRouting_created [OF assms(1) i assms(2-4) st]
      show "fst (SubnetRouting rng scope cid props w) = Inr (scope @ [cid]) \<and>
           map res (created w (snd (SubnetRouting rng scope cid props w))) =
             ConstructNode # map (\<lambda>subnet. CfnRoute (routeTableId subnet) (Lit ''0.0.0.0/0'') (Ref t))
               (isolatedSubnets v) \<and>
           map dependsOn (created w (snd (SubnetRouting rng scope cid props w))) =
             [] # map (\<lambda>subnet. if s = s' then [t] else []) (isolatedSubnets v)"
        unfolding cr by (simp add: run enumerate_routes del: map_map)
    qed
    then show ?thesis by blast
  next
    case (Some e)
    have "\<forall>rng. inj rng \<longrightarrow>
           fst (SubnetRouting rng scope cid props w) = Inl e \<and>
           map res (created w (snd (SubnetRouting rng scope cid props w))) =
             [ConstructNode, CfnRoute (routeTableId s0) (Lit ''0.0.0.0/0'') (Ref t)] \<and>
           map dependsOn (created w (snd (SubnetRouting rng scope cid props w))) = [[], []]"
      by (simp add: SubnetRouting_throws [OF assms Cons Some refusal_def] created_def)
    then show ?thesis by blast
  qed
qed

subsection \<open>The sample tree and the sample random identifiers\<close>

lemma inj_first_run_uuid: "inj first_run_uuid"
proof (rule injI)
  fix x y assume "first_run_uuid x = first_run_uuid y"
  then have "length (first_run_uuid x) = length (first_run_uuid y)" by simp
  then show "x = y" by (simp add: first_run_uuid_def)
qed

lemma inj_second_run_uuid: "inj second_run_uuid"
proof (rule injI)
  fix x y assume "second_run_uuid x = second_run_uuid y"
  then have "length (second_run_uuid x) = length (second_run_uuid y)" by simp
  then show "x = y" by (simp add: second_run_uuid_def)
qed

lemma sample_routing:
  "sr_prefix sample_routing_props = Some ''Dev''"
  "sr_vpc sample_routing_props =
     Some (sample_vpc ''dev'' [sample_subnet ''dev1'', sample_subnet ''dev2'']
             [sample_subnet ''pub1''])"
  "sr_transitGateway sample_routing_props = Some sample_hub"
  by (simp_all add: sample_routing_props_def)

lemma sample_gateway:
  "gw_prefix sample_gateway_props = Some ''TGW-''"
  "customerSideAsn sample_gateway_props = Some 65000"
  "onPremIpAddress sample_gateway_props = Some ''203.0.113.10''"
  by (simp_all add: sample_gateway_props_def)

lemma sample_world_nodes:
  "map (\<lambda>n. (node_path n, res n = StackNode)) (nodes sample_world) =
     [([''Hub''], True), ([''Hub'', ''TGW--TGW''], False), ([''Hub'', ''TGW--CGW''], False),
      ([''Hub'', ''TGW--VPN''], False), ([''Hub'', ''transitGatewayId''], False),
      ([''Hub'', ''customerGatewayId''], False), ([''Hub'', ''vpnConnectionId''], False),
      ([''Net''], True)]"
  "stackDependencies sample_world = []"
  "uuid_calls sample_world = 0"
  unfolding sample_world_def
    Gateway_run [of empty_world "[]" "''Hub''", OF fresh_empty sample_gateway]
  by (simp_all add: new_def empty_world_def)

lemma is_stack_by_map:
  "is_stack ns p = ((p, True) \<in> set (map (\<lambda>n. (node_path n, res n = StackNode)) ns))"
  by (auto simp add: is_stack_def list_ex_iff)

lemma sample_world_facts:
  "fresh sample_world ([''Net''] @ [cid])"
  "stackOf (nodes sample_world) [''Net''] = Some [''Net'']"
  "stackOf (nodes sample_world) sample_hub = Some [''Hub'']"
  "[''Net''] = [''Hub''] \<or> \<not> depends_on (stackDependencies sample_world) [''Hub''] [''Net'']"
  "distinct_paths sample_world"
proof -
  have paths: "map node_path (nodes sample_world) =
      map fst (map (\<lambda>n. (node_path n, res n = StackNode)) (nodes sample_world))"
    by (simp add: comp_def)
  show "fresh sample_world ([''Net''] @ [cid])"
  proof -
    have "list_all (\<lambda>q. take (length ([''Net''] @ [cid])) q \<noteq> [''Net''] @ [cid])
            (map node_path (nodes sample_world))"
      unfolding paths sample_world_nodes by simp
    then show ?thesis
      by (simp add: fresh_def list_all_iff)
  qed
  show "stackOf (nodes sample_world) [''Net''] = Some [''Net'']"
    by (simp add: stackOf_def is_stack_by_map sample_world_nodes)
  show "stackOf (nodes sample_world) sample_hub = Some [''Hub'']"
    by (simp add: stackOf_def is_stack_by_map sample_world_nodes sample_hub_def)
  show "[''Net''] = [''Hub''] \<or> \<not> depends_on (stackDependencies sample_world) [''Hub''] [''Net'']"
    by (simp add: depends_on_def sample_world_nodes)
  show "distinct_paths sample_world"
    unfolding distinct_paths_def paths sample_world_nodes by simp
qed

section \<open>Default routes written by the subnet routing\<close>

text \<open>
  Claim C5, as amended. Let the scope of \<open>SubnetRouting\<close> and the transit gateway each
  lie in a stack, the stack of the gateway not depending on the stack of the scope when
  the two differ, the construct id be fresh and the random identifiers not repeat.
  Then the construction succeeds, and the routes it declares are, in the order of the
  isolated subnets of the VPC it is handed, one route per isolated subnet: into the
  route table of that subnet, with destination \<^verbatim>\<open>0.0.0.0/0\<close> and the transit gateway as
  target. It declares no other route, so it writes none for a public subnet.
\<close>

theorem default_route_per_isolated_subnet:
  assumes "fresh w (scope @ [cid])" and "inj rng"
    and "sr_prefix props = Some p" and "sr_vpc props = Some v"
    and "sr_transitGateway props = Some t"
    and "stackOf (nodes w) scope = Some s" and "stackOf (nodes w) t = Some s'"
    and "s = s' \<or> \<not> depends_on (stackDependencies w) s' s"
    and "w' = snd (SubnetRouting rng scope cid props w)"
  shows "fst (SubnetRouting rng scope cid props w) = Inr (scope @ [cid]) \<and>
         map res (routes (created w w')) =
           map (\<lambda>subnet. CfnRoute (routeTableId subnet) (Lit ''0.0.0.0/0'') (Ref t))
             (isolatedSubnets v)"
proof
  show "fst (SubnetRouting rng scope cid props w) = Inr (scope @ [cid])"
    by (simp add: SubnetRouting_run [OF assms(1-8)])
  show "map res (routes (created w w')) =
           map (\<lambda>subnet. CfnRoute (routeTableId subnet) (Lit ''0.0.0.0/0'') (Ref t))
             (isolatedSubnets v)"
    unfolding assms(9) SubnetRouting_routes [OF assms(1-8)]
    by (rule enumerate_routes) simp
qed

theorem default_route_per_isolated_subnet_witness:
  "fresh sample_world ([''Net''] @ [''R'']) \<and> inj first_run_uuid \<and>
   stackOf (nodes sample_world) [''Net''] = Some [''Net''] \<and>
   stackOf (nodes sample_world) sample_hub = Some [''Hub''] \<and>
   fst (SubnetRouting first_run_uuid [''Net''] ''R'' sample_routing_props sample_world) =
     Inr [''Net'', ''R''] \<and>
   map res (routes (created sample_world
      (snd (SubnetRouting first_run_uuid [''Net''] ''R'' sample_routing_props sample_world)))) =
     [CfnRoute (Lit ''rtb-dev1'') (Lit ''0.0.0.0/0'') (Ref sample_hub),
      CfnRoute (Lit ''rtb-dev2'') (Lit ''0.0.0.0/0'') (Ref sample_hub)]"
proof -
  have "fresh sample_world [''Net'', ''R'']"
    using sample_world_facts(1) [of "''R''"] by simp
  with default_route_per_isolated_subnet [OF sample_world_facts(1) inj_first_run_uuid
      sample_routing sample_world_facts(2,3,4) refl, of "''R''"]
  show ?thesis
    by (simp add: sample_world_facts(2,3) inj_first_run_uuid sample_vpc_def sample_subnet_def)
qed

text \<open>
  Claim C5 as stated gives every subnet of the on-premises segment exactly one default
  route whose target is the hub. The VPC that \<open>SimulatedOnPrem\<close> builds has one public
  subnet and no isolated subnet, and the loop of \<open>SubnetRouting\<close> runs over the isolated
  subnets: handed that VPC, it succeeds and declares no route. The one route in the
  route table of the public subnet is the VPC's own default route, whose target is the
  internet gateway.
\<close>

theorem onprem_public_subnet_counterexample:
  "fst (SimulatedOnPrem [''Net''] ''OnPrem'' sample_onprem_props sample_world) =
     Inr \<lparr>eip = [''Net'', ''OnPrem'', ''onPremEip''], op_vpc = sample_onprem_vpc\<rparr> \<and>
   length (publicSubnets sample_onprem_vpc) = 1 \<and>
   isolatedSubnets sample_onprem_vpc = [] \<and>
   fst (SubnetRouting first_run_uuid [''Net''] ''OnPremRouting'' sample_onprem_routing_props
          sample_site_world) = Inr [''Net'', ''OnPremRouting''] \<and>
   routes (created sample_site_world
      (snd (SubnetRouting first_run_uuid [''Net''] ''OnPremRouting'' sample_onprem_routing_props
              sample_site_world))) = [] \<and>
   routes_of_table
      (nodes (snd (SubnetRouting first_run_uuid [''Net''] ''OnPremRouting''
                     sample_onprem_routing_props sample_site_world)))
      (Ref [''Net'', ''OnPrem'', ''OnPrem-VPC'', ''OnPrem-VPC | PublicSubnet1'', ''RouteTable'']) =
     [CfnGatewayRoute
        (Ref [''Net'', ''OnPrem'', ''OnPrem-VPC'', ''OnPrem-VPC | PublicSubnet1'', ''RouteTable''])
        (Lit ''0.0.0.0/0'') (Ref [''Net'', ''OnPrem'', ''OnPrem-VPC'', ''IGW''])]"
proof -
  note defs = sample_site_world_def sample_world_def Gateway_def new_CfnCustomerGateway_def
    requireProperty_def SimulatedOnPrem_def SubnetRouting_def new_Vpc_def eval_defs
    sample_onprem_props_def sample_onprem_vpc_def sample_onprem_routing_props_def
    sample_gateway_props_def sample_hub_def empty_world_def Let_def
  have a: "fst (SimulatedOnPrem [''Net''] ''OnPrem'' sample_onprem_props sample_world) =
     Inr \<lparr>eip = [''Net'', ''OnPrem'', ''onPremEip''], op_vpc = sample_onprem_vpc\<rparr>"
    by (simp add: defs)
  have b: "length (publicSubnets sample_onprem_vpc) = 1"
    and c: "isolatedSubnets sample_onprem_vpc = []"
    by (simp_all add: sample_onprem_vpc_def)
  have d: "case SubnetRouting first_run_uuid [''Net''] ''OnPremRouting''
                  sample_onprem_routing_props sample_site_world of
             (r, u) \<Rightarrow> r = Inr [''Net'', ''OnPremRouting''] \<and>
               routes (created sample_site_world u) = [] \<and>
               routes_of_table (nodes u)
                 (Ref [''Net'', ''OnPrem'', ''OnPrem-VPC'', ''OnPrem-VPC | PublicSubnet1'',
                       ''RouteTable'']) =
               [CfnGatewayRoute
                  (Ref [''Net'', ''OnPrem'', ''OnPrem-VPC'', ''OnPrem-VPC | PublicSubnet1'',
                        ''RouteTable''])
                  (Lit ''0.0.0.0/0'') (Ref [''Net'', ''OnPrem'', ''OnPrem-VPC'', ''IGW''])]"
    by (simp add: defs created_def routes_def routes_of_table_def)
  from a b c d show ?thesis
    by (simp add: case_prod_beta)
qed

subsection \<open>No construct path is used twice\<close>

lemma SubnetRouting_distinct: "preserves distinct_paths (SubnetRouting rng scope cid props)"
  unfolding SubnetRouting_def by (intro preserves_intros)

lemma TgwRouteAttachment_distinct: "preserves distinct_paths (TgwRouteAttachment scope cid props)"
  unfolding TgwRouteAttachment_def by (intro preserves_intros)

lemma TgwVpnRouting_distinct: "preserves distinct_paths (TgwVpnRouting scope cid props)"
  unfolding TgwVpnRouting_def by (intro preserves_intros)

lemma Gateway_distinct: "preserves distinct_paths (Gateway scope cid props)"
  unfolding Gateway_def new_CfnCustomerGateway_def by (intro preserves_intros)

section \<open>Two runs on the same configuration\<close>

text \<open>
  Claim C6, as amended. Two runs of \<open>SubnetRouting\<close> on the same properties and the same
  tree, each with random identifiers that do not repeat, end alike and declare the same
  resources with the same dependencies in the same order; the construct ids of the
  routes contain the random identifier and are not claimed to agree. No run of
  \<open>SubnetRouting\<close>, \<open>TgwRouteAttachment\<close>, \<open>TgwVpnRouting\<close> or \<open>Gateway\<close> leaves two
  constructs under one path, whether it succeeds or throws.
\<close>

theorem routing_same_up_to_keys:
  assumes "fresh w (scope @ [cid])" and "inj rng" and "inj rng'"
    and "sr_prefix props = Some p" and "sr_vpc props = Some v"
    and "sr_transitGateway props = Some t"
    and "distinct_paths w"
    and "w1 = snd (SubnetRouting rng scope cid props w)"
    and "w2 = snd (SubnetRouting rng' scope cid props w)"
  shows "fst (SubnetRouting rng scope cid props w) = fst (SubnetRouting rng' scope cid props w)
       \<and> map res (created w w1) = map res (created w w2)
       \<and> map dependsOn (created w w1) = map dependsOn (created w w2)
       \<and> distinct_paths w1 \<and> distinct_paths w2
       \<and> distinct_paths (snd (TgwRouteAttachment scope cid rprops w))
       \<and> distinct_paths (snd (TgwVpnRouting scope cid vprops w))
       \<and> distinct_paths (snd (Gateway scope cid gprops w))"
proof -
  from SubnetRouting_up_to_keys [OF assms(1,4-6)] obtain r rs ds where
    same: "\<And>g. inj g \<Longrightarrow>
           fst (SubnetRouting g scope cid props w) = r \<and>
           map res (created w (snd (SubnetRouting g scope cid props w))) = rs \<and>
           map dependsOn (created w (snd (SubnetRouting g scope cid props w))) = ds"
    by blast
  have "fst (SubnetRouting rng scope cid props w) = fst (SubnetRouting rng' scope cid props w)"
    using same [OF assms(2)] same [OF assms(3)] by simp
  moreover have "map res (created w w1) = map res (created w w2)"
    unfolding assms(8,9) using same [OF assms(2)] same [OF assms(3)] by simp
  moreover have "map dependsOn (created w w1) = map dependsOn (created w w2)"
    unfolding assms(8,9) using same [OF assms(2)] same [OF assms(3)] by simp
  moreover have "distinct_paths w1" "distinct_paths w2"
    using SubnetRouting_distinct assms(7) unfolding assms(8,9) preserves_def by blast+
  moreover have "distinct_paths (snd (TgwRouteAttachment scope cid rprops w))"
    using TgwRouteAttachment_distinct assms(7) unfolding preserves_def by blast
  moreover have "distinct_paths (snd (TgwVpnRouting scope cid vprops w))"
    using TgwVpnRouting_distinct assms(7) unfolding preserves_def by blast
  moreover have "distinct_paths (snd (Gateway scope cid gprops w))"
    using Gateway_distinct assms(7) unfolding preserves_def by blast
  ultimately show ?thesis by simp
qed

theorem routing_same_up_to_keys_witness:
  "fresh sample_world ([''Net''] @ [''R'']) \<and> inj first_run_uuid \<and> inj second_run_uuid \<and>
   distinct_paths sample_world \<and>
   fst (SubnetRouting first_run_uuid [''Net''] ''R'' sample_routing_props sample_world) =
   fst (SubnetRouting second_run_uuid [''Net''] ''R'' sample_routing_props sample_world) \<and>
   map res (created sample_world
      (snd (SubnetRouting first_run_uuid [''Net''] ''R'' sample_routing_props sample_world))) =
   map res (created sample_world
      (snd (SubnetRouting second_run_uuid [''Net''] ''R'' sample_routing_props sample_world))) \<and>
   distinct_paths (snd (SubnetRouting first_run_uuid [''Net''] ''R'' sample_routing_props sample_world))"
proof -
  have "fresh sample_world [''Net'', ''R'']"
    using sample_world_facts(1) [of "''R''"] by simp
  with routing_same_up_to_keys [OF sample_world_facts(1) inj_first_run_uuid inj_second_run_uuid
      sample_routing sample_world_facts(5) refl refl, of "''R''"]
  show ?thesis
    by (simp add: sample_world_facts(5) inj_first_run_uuid inj_second_run_uuid)
qed

text \<open>
  Claim C6 as stated has every route identified by the same key in both runs. The key of
  a default route is \<^verbatim>\<open>prefix + uuidv4() + "-tgw-route"\<close>: two runs that draw different
  identifiers declare the routes under different keys, so the declared trees differ.
\<close>

theorem random_keys_counterexample:
  "map node_path (routes (created sample_world
      (snd (SubnetRouting first_run_uuid [''Net''] ''R'' sample_routing_props sample_world)))) =
     [[''Net'', ''R'', ''Deva-tgw-route''], [''Net'', ''R'', ''Devaa-tgw-route'']] \<and>
   map node_path (routes (created sample_world
      (snd (SubnetRouting second_run_uuid [''Net''] ''R'' sample_routing_props sample_world)))) =
     [[''Net'', ''R'', ''Devb-tgw-route''], [''Net'', ''R'', ''Devbb-tgw-route'']] \<and>
   SubnetRouting first_run_uuid [''Net''] ''R'' sample_routing_props sample_world \<noteq>
   SubnetRouting second_run_uuid [''Net''] ''R'' sample_routing_props sample_world"
proof -
  have a: "map node_path (routes (created sample_world
      (snd (SubnetRouting first_run_uuid [''Net''] ''R'' sample_routing_props sample_world)))) =
     [[''Net'', ''R'', ''Deva-tgw-route''], [''Net'', ''R'', ''Devaa-tgw-route'']]"
    unfolding SubnetRouting_routes [OF sample_world_facts(1) inj_first_run_uuid sample_routing
        sample_world_facts(2,3,4)]
    by (simp add: sample_world_nodes sample_vpc_def first_run_uuid_def)
  have b: "map node_path (routes (created sample_world
      (snd (SubnetRouting second_run_uuid [''Net''] ''R'' sample_routing_props sample_world)))) =
     [[''Net'', ''R'', ''Devb-tgw-route''], [''Net'', ''R'', ''Devbb-tgw-route'']]"
    unfolding SubnetRouting_routes [OF sample_world_facts(1) inj_second_run_uuid sample_routing
        sample_world_facts(2,3,4)]
    by (simp add: sample_world_nodes sample_vpc_def second_run_uuid_def)
  have "SubnetRouting first_run_uuid [''Net''] ''R'' sample_routing_props sample_world \<noteq>
        SubnetRouting second_run_uuid [''Net''] ''R'' sample_routing_props sample_world"
  proof
    assume "SubnetRouting first_run_uuid [''Net''] ''R'' sample_routing_props sample_world =
        SubnetRouting second_run_uuid [''Net''] ''R'' sample_routing_props sample_world"
    with a b show False by simp
  qed
  with a b show ?thesis by simp
qed

lemma attachments_of_made:
  "attachments (map (\<lambda>(k, subnet). \<lparr>node_path = f k, res = CfnRoute (g subnet) d h, dependsOn = e\<rparr>) xs)
     = []"
  by (induction xs) (auto simp add: attachments_def)

lemma SubnetRouting_route_deps:
  assumes "fresh w (scope @ [cid])" and "inj rng"
    and "sr_prefix props = Some p" and "sr_vpc props = Some v"
    and "sr_transitGateway props = Some t"
    and "stackOf (nodes w) scope = Some s" and "stackOf (nodes w) t = Some s'"
    and "s = s' \<or> \<not> depends_on (stackDependencies w) s' s"
  shows "map dependsOn (routes (created w (snd (SubnetRouting rng scope cid props w)))) =
           map (\<lambda>subnet. if s = s' then [t] else []) (isolatedSubnets v)"
  unfolding SubnetRouting_routes [OF assms]
  by (rule enumerate_routes) simp

lemma SubnetRouting_stack_deps:
  assumes "fresh w (scope @ [cid])" and "inj rng"
    and "sr_prefix props = Some p" and "sr_vpc props = Some v"
    and "sr_transitGateway props = Some t"
    and "stackOf (nodes w) scope = Some s" and "stackOf (nodes w) t = Some s'"
    and "s = s' \<or> \<not> depends_on (stackDependencies w) s' s"
  shows "stackDependencies (snd (SubnetRouting rng scope cid props w)) =
           (if s = s' \<or> isolatedSubnets v = [] \<or> (s, s') \<in> set (stackDependencies w)
            then stackDependencies w else stackDependencies w @ [(s, s')])"
  unfolding SubnetRouting_run [OF assms] by simp

lemma SubnetRouting_no_attachment:
  assumes "fresh w (scope @ [cid])" and "inj rng"
    and "sr_prefix props = Some p" and "sr_vpc props = Some v"
    and "sr_transitGateway props = Some t"
    and "stackOf (nodes w) scope = Some s" and "stackOf (nodes w) t = Some s'"
    and "s = s' \<or> \<not> depends_on (stackDependencies w) s' s"
  shows "attachments (created w (snd (SubnetRouting rng scope cid props w))) = []"
  unfolding SubnetRouting_created [OF assms]
  using attachments_of_made [of "\<lambda>k. (scope @ [cid]) @ [p @ rng k @ ''-tgw-route'']"
        routeTableId "Lit ''0.0.0.0/0''" "Ref t" "if s = s' then [t] else []"
        "enumerate (uuid_calls w) (isolatedSubnets v)"]
  by (simp add: attachments_def)

lemma sample_world_stackDependencies: "stackDependencies sample_world = []"
  by (simp add: sample_world_def Gateway_def new_CfnCustomerGateway_def requireProperty_def
        eval_defs sample_gateway_props_def empty_world_def)

section \<open>Dependencies declared by the subnet routes\<close>

text \<open>
  Claim C1, as amended. When the route attachment stack succeeds, the routes it writes
  into the development subnets (one per isolated subnet, to the CIDR block of the
  production VPC) each declare exactly one dependency, the development attachment, which
  is the attachment of the development VPC. \<open>SubnetRouting\<close> declares no attachment, and
  makes each of its default routes depend on the transit gateway itself: when the
  gateway lies in the stack of the routes, each route declares exactly that one
  dependency; when it lies in another stack, the routes declare no dependency of their
  own and the dependency is recorded once, between the two stacks. Nothing is said here
  of the routes written into the production subnets.
\<close>

theorem route_dependencies:
  assumes "fresh w (scope @ [cid])"
    and "length (isolatedSubnets (developmentVpc props)) \<le> 1"
    and "length (isolatedSubnets (productionVpc props)) \<le> 1"
    and "w' = snd (TgwRouteAttachment scope cid props w)"
    and "fresh u (scope' @ [cid'])" and "inj rng"
    and "sr_prefix sprops = Some p" and "sr_vpc sprops = Some v"
    and "sr_transitGateway sprops = Some t"
    and "stackOf (nodes u) scope' = Some s" and "stackOf (nodes u) t = Some s'"
    and "s = s' \<or> \<not> depends_on (stackDependencies u) s' s"
    and "u' = snd (SubnetRouting rng scope' cid' sprops u)"
  shows "map res (filter (\<lambda>n. node_path n = scope @ [cid, ''RouteToProdVpcDepartment''])
                   (created w w')) =
           map (\<lambda>subnet. CfnRoute (routeTableId subnet) (vpcCidrBlock (productionVpc props))
                            (Ref (ra_transitGateway props)))
             (isolatedSubnets (developmentVpc props))
       \<and> map dependsOn (filter (\<lambda>n. node_path n = scope @ [cid, ''RouteToProdVpcDepartment''])
                   (created w w')) =
           map (\<lambda>subnet. [scope @ [cid, ra_prefix props @ ''dev-vpc-tgw-attachment'']])
             (isolatedSubnets (developmentVpc props))
       \<and> map res (filter (\<lambda>n. node_path n =
                               scope @ [cid, ra_prefix props @ ''dev-vpc-tgw-attachment''])
                   (created w w')) =
           [CfnTransitGatewayAttachment (Ref (ra_transitGateway props))
              (vpcId (developmentVpc props))
              (map subnetId (isolatedSubnets (developmentVpc props)))
              [(''Name'', ra_prefix props @ ''dev-vpc-tgw-attachment'')]]
       \<and> map dependsOn (routes (created u u')) =
           map (\<lambda>subnet. if s = s' then [t] else []) (isolatedSubnets v)
       \<and> stackDependencies u' =
           (if s = s' \<or> isolatedSubnets v = [] \<or> (s, s') \<in> set (stackDependencies u)
            then stackDependencies u else stackDependencies u @ [(s, s')])
       \<and> attachments (created u u') = []"
proof -
  have c: "created w w' = drop (length (nodes w)) (nodes (snd (TgwRouteAttachment scope cid props w)))"
    by (simp add: created_def assms(4))
  have 1: "map res (filter (\<lambda>n. node_path n = scope @ [cid, ''RouteToProdVpcDepartment''])
                   (created w w')) =
           map (\<lambda>subnet. CfnRoute (routeTableId subnet) (vpcCidrBlock (productionVpc props))
                            (Ref (ra_transitGateway props)))
             (isolatedSubnets (developmentVpc props))"
    unfolding c TgwRouteAttachment_run [OF assms(1-3)]
    by (simp add: run_simps filter_map comp_def)
  have 2: "map dependsOn (filter (\<lambda>n. node_path n = scope @ [cid, ''RouteToProdVpcDepartment''])
                   (created w w')) =
           map (\<lambda>subnet. [scope @ [cid, ra_prefix props @ ''dev-vpc-tgw-attachment'']])
             (isolatedSubnets (developmentVpc props))"
    unfolding c TgwRouteAttachment_run [OF assms(1-3)]
    by (simp add: run_simps filter_map comp_def)
  have 3: "map res (filter (\<lambda>n. node_path n =
                               scope @ [cid, ra_prefix props @ ''dev-vpc-tgw-attachment''])
                   (created w w')) =
           [CfnTransitGatewayAttachment (Ref (ra_transitGateway props))
              (vpcId (developmentVpc props))
              (map subnetId (isolatedSubnets (developmentVpc props)))
              [(''Name'', ra_prefix props @ ''dev-vpc-tgw-attachment'')]]"
    unfolding c TgwRouteAttachment_run [OF assms(1-3)]
    by (simp add: run_simps filter_map comp_def)
  have 4: "map dependsOn (routes (created u u')) =
           map (\<lambda>subnet. if s = s' then [t] else []) (isolatedSubnets v)"
    unfolding assms(13) by (rule SubnetRouting_route_deps [OF assms(5-12)])
  have 5: "stackDependencies u' =
           (if s = s' \<or> isolatedSubnets v = [] \<or> (s, s') \<in> set (stackDependencies u)
            then stackDependencies u else stackDependencies u @ [(s, s')])"
    unfolding assms(13) by (rule SubnetRouting_stack_deps [OF assms(5-12)])
  have 6: "attachments (created u u') = []"
    unfolding assms(13) by (rule SubnetRouting_no_attachment [OF assms(5-12)])
  from 1 2 3 4 5 6 show ?thesis by (simp only: simp_thms)
qed

theorem route_dependencies_witness:
  "fresh empty_world ([] @ [''Routes'']) \<and> fresh sample_world ([''Net''] @ [''R'']) \<and>
   inj first_run_uuid \<and>
   stackOf (nodes sample_world) [''Net''] = Some [''Net''] \<and>
   stackOf (nodes sample_world) sample_hub = Some [''Hub''] \<and>
   map dependsOn (filter (\<lambda>n. node_path n = [''Routes'', ''RouteToProdVpcDepartment''])
      (created empty_world (snd (TgwRouteAttachment [] ''Routes'' sample_props empty_world)))) =
     [[[''Routes'', ''Gateway-dev-vpc-tgw-attachment'']]] \<and>
   map dependsOn (routes (created sample_world
      (snd (SubnetRouting first_run_uuid [''Net''] ''R'' sample_routing_props sample_world)))) =
     [[], []] \<and>
   stackDependencies
      (snd (SubnetRouting first_run_uuid [''Net''] ''R'' sample_routing_props sample_world)) =
     [([''Net''], [''Hub''])]"
proof -
  have "fresh sample_world [''Net'', ''R'']"
    using sample_world_facts(1) [of "''R''"] by simp
  with route_dependencies [OF fresh_empty sample_wiring(4,5) refl sample_world_facts(1)
      inj_first_run_uuid sample_routing sample_world_facts(2,3,4) refl,
      of "[]" "''Routes''" "''R''"]
  show ?thesis
    by (simp add: fresh_empty inj_first_run_uuid sample_props_def sample_vpc_def
          sample_world_facts(2,3) sample_world_stackDependencies)
qed

text \<open>
  Claim C1 as stated has every route depend on the attachment of its own segment. The
  route written into the production subnet depends on the development attachment and
  not on the production attachment. And \<open>SubnetRouting\<close> declares no attachment at all:
  a default route of its, written in a stack other than the one of the transit gateway,
  declares no dependency of its own, and what is recorded is that its stack depends on
  the stack of the transit gateway.
\<close>

theorem production_route_dependency_counterexample:
  "routes_of_table (nodes (snd (TgwRouteAttachment [] ''Routes'' sample_props empty_world)))
     (Lit ''rtb-prod1'') = [CfnRoute (Lit ''rtb-prod1'') (Lit ''cidr-dev'') (Ref sample_hub)] \<and>
   map res (filter (\<lambda>n. node_path n = [''Routes'', ''RouteToDevVpcDepartment''])
      (nodes (snd (TgwRouteAttachment [] ''Routes'' sample_props empty_world)))) =
     [CfnRoute (Lit ''rtb-prod1'') (Lit ''cidr-dev'') (Ref sample_hub)] \<and>
   deps_of (nodes (snd (TgwRouteAttachment [] ''Routes'' sample_props empty_world)))
     [''Routes'', ''RouteToDevVpcDepartment''] =
       [[''Routes'', ''Gateway-dev-vpc-tgw-attachment'']] \<and>
   [''Routes'', ''Gateway-prod-vpc-tgw-attachment''] \<notin> set
     (deps_of (nodes (snd (TgwRouteAttachment [] ''Routes'' sample_props empty_world)))
        [''Routes'', ''RouteToDevVpcDepartment'']) \<and>
   map dependsOn (routes (created sample_world
      (snd (SubnetRouting first_run_uuid [''Net''] ''R'' sample_routing_props sample_world)))) =
     [[], []] \<and>
   stackDependencies
      (snd (SubnetRouting first_run_uuid [''Net''] ''R'' sample_routing_props sample_world)) =
     [([''Net''], [''Hub''])] \<and>
   attachments (created sample_world
      (snd (SubnetRouting first_run_uuid [''Net''] ''R'' sample_routing_props sample_world))) = []"
proof -
  have a: "routes_of_table (nodes (snd (TgwRouteAttachment [] ''Routes'' sample_props empty_world)))
     (Lit ''rtb-prod1'') = [CfnRoute (Lit ''rtb-prod1'') (Lit ''cidr-dev'') (Ref sample_hub)]"
    by (simp add: TgwRouteAttachment_def eval_defs sample_props_def sample_vpc_def
          sample_subnet_def empty_world_def routes_of_table_def)
  have b: "map res (filter (\<lambda>n. node_path n = [''Routes'', ''RouteToDevVpcDepartment''])
      (nodes (snd (TgwRouteAttachment [] ''Routes'' sample_props empty_world)))) =
     [CfnRoute (Lit ''rtb-prod1'') (Lit ''cidr-dev'') (Ref sample_hub)]"
    by (simp add: TgwRouteAttachment_def eval_defs sample_props_def sample_vpc_def
          sample_subnet_def empty_world_def)
  have c: "deps_of (nodes (snd (TgwRouteAttachment [] ''Routes'' sample_props empty_world)))
     [''Routes'', ''RouteToDevVpcDepartment''] =
       [[''Routes'', ''Gateway-dev-vpc-tgw-attachment'']]"
    by (simp add: TgwRouteAttachment_def eval_defs sample_props_def sample_vpc_def
          sample_subnet_def empty_world_def deps_of_def)
  have d: "map dependsOn (routes (created sample_world
      (snd (SubnetRouting first_run_uuid [''Net''] ''R'' sample_routing_props sample_world)))) =
     [[], []]"
    unfolding SubnetRouting_route_deps [OF sample_world_facts(1) inj_first_run_uuid
        sample_routing sample_world_facts(2,3,4)]
    by (simp add: sample_vpc_def)
  have e: "stackDependencies
      (snd (SubnetRouting first_run_uuid [''Net''] ''R'' sample_routing_props sample_world)) =
     [([''Net''], [''Hub''])]"
    unfolding SubnetRouting_stack_deps [OF sample_world_facts(1) inj_first_run_uuid
        sample_routing sample_world_facts(2,3,4)]
    by (simp add: sample_vpc_def sample_world_stackDependencies)
  have f: "attachments (created sample_world
      (snd (SubnetRouting first_run_uuid [''Net''] ''R'' sample_routing_props sample_world))) = []"
    by (rule SubnetRouting_no_attachment [OF sample_world_facts(1) inj_first_run_uuid
        sample_routing sample_world_facts(2,3,4)])
  show ?thesis
    unfolding c using a b d e f by simp
qed

lemma Gateway_no_default_binding:
  "preserves (all_res (\<lambda>r. \<not> default_binding r)) (Gateway scope cid props)"
  unfolding Gateway_def new_CfnCustomerGateway_def
  by (intro preserves_intros) simp_all

section \<open>The gateway stack\<close>

text \<open>
  Claim C7, as amended. With a prefix, a customer ASN and an on-premises address given,
  and under a fresh stack id, the gateway stack succeeds and declares, in this order,
  the stack, the transit gateway, the customer gateway and the VPN connection: the
  transit gateway comes before the customer gateway, both come before the VPN
  connection, and the VPN connection refers to both.
\<close>

theorem gateway_creation_order:
  assumes "fresh w (scope @ [cid])"
    and "gw_prefix props = Some p"
    and "customerSideAsn props = Some a"
    and "onPremIpAddress props = Some ip"
    and "w' = snd (Gateway scope cid props w)"
    and "tgw = scope @ [cid, p @ ''-TGW'']"
    and "cgw = scope @ [cid, p @ ''-CGW'']"
    and "vpn = scope @ [cid, p @ ''-VPN'']"
  shows "fst (Gateway scope cid props w) =
           Inr \<lparr>cfnTransitGateway = tgw, cfnCustomerGateway = cgw, cfnVPNConnection = vpn\<rparr>
       \<and> map node_path (take 4 (created w w')) = [scope @ [cid], tgw, cgw, vpn]
       \<and> created_before (created w w') tgw cgw
       \<and> created_before (created w w') cgw vpn
       \<and> created_before (created w w') tgw vpn
       \<and> \<not> created_before (created w w') cgw tgw
       \<and> map res (filter (\<lambda>n. node_path n = vpn) (created w w')) =
           [CfnVPNConnection (Ref tgw) (Ref cgw) False ''ipsec.1'' [(''Name'', p @ ''-VPN'')]]"
  unfolding assms(5-8) Gateway_run [OF assms(1-4)]
  by (simp add: created_def created_before_def append_neq_literal literal_neq_append)

theorem gateway_creation_order_witness:
  "fresh empty_world ([] @ [''Hub'']) \<and>
   fst (Gateway [] ''Hub'' sample_gateway_props empty_world) =
     Inr \<lparr>cfnTransitGateway = [''Hub'', ''TGW--TGW''], cfnCustomerGateway = [''Hub'', ''TGW--CGW''],
          cfnVPNConnection = [''Hub'', ''TGW--VPN'']\<rparr> \<and>
   map node_path (take 4 (created empty_world
      (snd (Gateway [] ''Hub'' sample_gateway_props empty_world)))) =
     [[''Hub''], [''Hub'', ''TGW--TGW''], [''Hub'', ''TGW--CGW''], [''Hub'', ''TGW--VPN'']]"
  using gateway_creation_order [OF fresh_empty sample_gateway refl refl refl refl,
      of "[]" "''Hub''"]
  by (simp add: fresh_empty)

text \<open>
  Claim C7 as stated has the customer gateway created first and the transit gateway
  second. The constructor creates the transit gateway first (position 1, after the stack
  itself) and the customer gateway second (position 2).
\<close>

theorem customer_gateway_second_counterexample:
  "position [''Hub'', ''TGW--TGW'']
     (nodes (snd (Gateway [] ''Hub'' sample_gateway_props empty_world))) = Some 1 \<and>
   position [''Hub'', ''TGW--CGW'']
     (nodes (snd (Gateway [] ''Hub'' sample_gateway_props empty_world))) = Some 2 \<and>
   \<not> created_before (nodes (snd (Gateway [] ''Hub'' sample_gateway_props empty_world)))
        [''Hub'', ''TGW--CGW''] [''Hub'', ''TGW--TGW'']"
  by (simp add: Gateway_def new_CfnCustomerGateway_def requireProperty_def run_defs
        sample_gateway_props_def empty_world_def created_before_def)

text \<open>
  Claim C10. The transit gateway that the gateway stack declares has default route-table
  association and default route-table propagation both set to \<^verbatim>\<open>disable\<close>. No run of the
  gateway stack, from any tree without a default-binding gateway, adds one, so no
  attachment is bound to a route table other than by a declared association or
  propagation; the same holds for the tree of the whole application, for every
  configuration.
\<close>

theorem default_binding_disabled:
  assumes "fresh w (scope @ [cid])"
    and "gw_prefix props = Some p"
    and "customerSideAsn props = Some a"
    and "onPremIpAddress props = Some ip"
    and "w' = snd (Gateway scope cid props w)"
  shows "map res (filter (\<lambda>n. node_path n = scope @ [cid, p @ ''-TGW'']) (created w w')) =
           [CfnTransitGateway \<lparr>
              amazonSideAsn = gw_amazonSideAsn props,
              description = ''TGW for hybrid networking'',
              autoAcceptSharedAttachments = ''enable'',
              defaultRouteTableAssociation = ''disable'',
              defaultRouteTablePropagation = ''disable'',
              dnsSupport = ''enable'',
              vpnEcmpSupport = ''enable'',
              multicastSupport = ''enable'',
              tgw_tags = [(''Name'', p @ ''-TGW'')]\<rparr>]
       \<and> (all_res (\<lambda>r. \<not> default_binding r) u \<longrightarrow>
            all_res (\<lambda>r. \<not> default_binding r) (snd (Gateway scope' cid' props' u)) \<and>
            implicit_bindings (nodes (snd (Gateway scope' cid' props' u))) = [])
       \<and> implicit_bindings (nodes (snd (app cfnParams empty_world))) = []"
proof -
  have 1: "map res (filter (\<lambda>n. node_path n = scope @ [cid, p @ ''-TGW'']) (created w w')) =
           [CfnTransitGateway \<lparr>
              amazonSideAsn = gw_amazonSideAsn props,
              description = ''TGW for hybrid networking'',
              autoAcceptSharedAttachments = ''enable'',
              defaultRouteTableAssociation = ''disable'',
              defaultRouteTablePropagation = ''disable'',
              dnsSupport = ''enable'',
              vpnEcmpSupport = ''enable'',
              multicastSupport = ''enable'',
              tgw_tags = [(''Name'', p @ ''-TGW'')]\<rparr>]"
    unfolding assms(5) Gateway_run [OF assms(1-4)]
    by (simp add: created_def append_neq_literal literal_neq_append)
  have 2: "all_res (\<lambda>r. \<not> default_binding r) (snd (Gateway scope' cid' props' u))"
    if "all_res (\<lambda>r. \<not> default_binding r) u"
    using Gateway_no_default_binding that unfolding preserves_def by blast
  have "all_res (\<lambda>r. \<not> default_binding r) empty_world"
    by (simp add: all_res_def empty_world_def)
  then have "all_res (\<lambda>r. \<not> default_binding r) (snd (app cfnParams empty_world))"
    using no_default_binding_app unfolding preserves_def by blast
  then have 3: "implicit_bindings (nodes (snd (app cfnParams empty_world))) = []"
    by (rule implicit_bindings_none)
  from 1 2 3 show ?thesis
    by (simp add: implicit_bindings_none)
qed

theorem default_binding_disabled_witness:
  "fresh empty_world ([] @ [''Hub'']) \<and>
   map res (filter (\<lambda>n. node_path n = [''Hub'', ''TGW--TGW''])
      (created empty_world (snd (Gateway [] ''Hub'' sample_gateway_props empty_world)))) =
     [CfnTransitGateway \<lparr>
        amazonSideAsn = Some 64512,
        description = ''TGW for hybrid networking'',
        autoAcceptSharedAttachments = ''enable'',
        defaultRouteTableAssociation = ''disable'',
        defaultRouteTablePropagation = ''disable'',
        dnsSupport = ''enable'',
        vpnEcmpSupport = ''enable'',
        multicastSupport = ''enable'',
        tgw_tags = [(''Name'', ''TGW--TGW'')]\<rparr>] \<and>
   all_res (\<lambda>r. \<not> default_binding r) empty_world \<and>
   implicit_bindings (nodes (snd (Gateway [] ''Hub'' sample_gateway_props empty_world))) = []"
proof -
  have e: "all_res (\<lambda>r. \<not> default_binding r) empty_world"
    by (simp add: all_res_def empty_world_def)
  from default_binding_disabled [OF fresh_empty sample_gateway refl,
      of "[]" "''Hub''" empty_world "[]" "''Hub''" sample_gateway_props] e
  show ?thesis
    by (simp add: fresh_empty sample_gateway_props_def)
qed

section \<open>The application without the on-premises address\<close>

subsection \<open>Runs of the application on an incomplete configuration\<close>

text \<open>
  A segment and the simulated site succeed under a fresh id, declare no attachment, and
  add constructs below their own path only.
\<close>

lemma VpcWithEc2_below:
  assumes "fresh w (scope @ [cid])" and "ve_prefix props = Some p"
  shows "case VpcWithEc2 scope cid props w of
          (r, w') \<Rightarrow> (\<exists>x. r = Inr x) \<and>
            (\<exists>ns. nodes w' = nodes w @ ns \<and> attachments ns = [] \<and>
               list_all (\<lambda>n. take (length (scope @ [cid])) (node_path n) = scope @ [cid]) ns)"
  using assms
  by (simp add: VpcWithEc2_def new_Vpc_def Let_def run_simps attachments_def)

lemma SimulatedOnPrem_below:
  assumes "fresh w (scope @ [cid])" and "op_prefix props = Some p"
  shows "case SimulatedOnPrem scope cid props w of
          (r, w') \<Rightarrow> (\<exists>x. r = Inr x) \<and>
            (\<exists>ns. nodes w' = nodes w @ ns \<and> attachments ns = [] \<and>
               list_all (\<lambda>n. take (length (scope @ [cid])) (node_path n) = scope @ [cid]) ns)"
  using assms
  by (simp add: SimulatedOnPrem_def new_Vpc_def Let_def run_simps attachments_def)

text \<open>A path that parts from \<open>P\<close> stays fresh when constructs are added below \<open>P\<close>.\<close>

lemma fresh_extend:
  assumes "fresh w q" and "nodes w' = nodes w @ ns"
    and "list_all (\<lambda>n. take (length P) (node_path n) = P) ns"
    and "take (min (length P) (length q)) P \<noteq> take (min (length P) (length q)) q"
  shows "fresh w' q"
proof -
  have "take (length q) (node_path n) \<noteq> q" if "n \<in> set ns" for n
  proof
    assume eq: "take (length q) (node_path n) = q"
    from that assms(3) have P: "take (length P) (node_path n) = P"
      by (simp add: list_all_iff)
    have "take (min (length P) (length q)) P =
          take (min (length P) (length q)) (take (length P) (node_path n))"
      by (simp only: P)
    also have "\<dots> = take (min (length P) (length q)) (take (length q) (node_path n))"
      by (simp add: min.commute)
    also have "\<dots> = take (min (length P) (length q)) q"
      by (simp only: eq)
    finally show False
      using assms(4) by simp
  qed
  with assms(1,2) show ?thesis
    by (auto simp add: fresh_def list_all_iff)
qed

text \<open>The base network stack reads the entry of the region, and nothing else that may be absent.\<close>

lemma BaseNetworkStack_without_region:
  assumes "byRegion cfnParams REGION = None"
  shows "BaseNetworkStack [] ''AwsBaseNetwork'' REGION cfnParams empty_world =
      (Inl TypeError,
       empty_world\<lparr>nodes :=
         [\<lparr>node_path = [''AwsBaseNetwork''], res = StackNode, dependsOn = []\<rparr>,
          \<lparr>node_path = [''AwsBaseNetwork'', ''svcRoleForEc2ViaSsm''], res = Opaque ''Role'',
           dependsOn = []\<rparr>]\<rparr>)"
  using assms by (simp add: BaseNetworkStack_def run_defs empty_world_def)

lemma BaseNetworkStack_with_region:
  assumes "byRegion cfnParams REGION = Some rp"
  shows "case BaseNetworkStack [] ''AwsBaseNetwork'' REGION cfnParams empty_world of
          (r, w) \<Rightarrow> (\<exists>bn. r = Inr bn) \<and> attachments (nodes w) = [] \<and>
                    fresh w [''TgwAndVpnAndCgw'']"
proof -
  define w2 where "w2 = \<lparr>nodes =
         [\<lparr>node_path = [''AwsBaseNetwork''], res = StackNode, dependsOn = []\<rparr>,
          \<lparr>node_path = [''AwsBaseNetwork'', ''svcRoleForEc2ViaSsm''], res = Opaque ''Role'',
           dependsOn = []\<rparr>], uuid_calls = 0, stackDependencies = [],
         nodeDependencies = []\<rparr>"
  let ?dev = "VpcWithEc2 [''AwsBaseNetwork''] ''Development''
         \<lparr>ve_prefix = Some ''Development'', ve_cidr = DevelopmentCidr rp,
          ve_cidrMask = CidrMask rp, ve_transitGateway = None,
          ve_ec2Role = Some [''AwsBaseNetwork'', ''svcRoleForEc2ViaSsm'']\<rparr>"
  let ?prod = "VpcWithEc2 [''AwsBaseNetwork''] ''Production''
         \<lparr>ve_prefix = Some ''Production'', ve_cidr = ProductionCidr rp,
          ve_cidrMask = CidrMask rp, ve_transitGateway = None,
          ve_ec2Role = Some [''AwsBaseNetwork'', ''svcRoleForEc2ViaSsm'']\<rparr>"
  let ?site = "SimulatedOnPrem [''AwsBaseNetwork''] ''OnPrem''
         \<lparr>op_prefix = Some ''OnPrem'', op_cidr = OnPremCidr rp,
          op_cidrMask = CidrMask rp,
          op_ec2Role = [''AwsBaseNetwork'', ''svcRoleForEc2ViaSsm'']\<rparr>"
  have f2d: "fresh w2 ([''AwsBaseNetwork''] @ [''Development''])"
    and f2p: "fresh w2 ([''AwsBaseNetwork''] @ [''Production''])"
    and f2o: "fresh w2 ([''AwsBaseNetwork''] @ [''OnPrem''])"
    by (simp_all add: w2_def fresh_def)
  have g2: "fresh w2 [''TgwAndVpnAndCgw'']" and a2: "attachments (nodes w2) = []"
    by (simp_all add: w2_def fresh_def attachments_def)
  obtain x1 w3 ns1 where V1: "?dev w2 = (Inr x1, w3)" and n1: "nodes w3 = nodes w2 @ ns1"
    and a1: "attachments ns1 = []"
    and b1: "list_all (\<lambda>n. take (length ([''AwsBaseNetwork''] @ [''Development'']))
                            (node_path n) = [''AwsBaseNetwork''] @ [''Development'']) ns1"
    using VpcWithEc2_below [OF f2d, of "\<lparr>ve_prefix = Some ''Development'',
          ve_cidr = DevelopmentCidr rp, ve_cidrMask = CidrMask rp, ve_transitGateway = None,
          ve_ec2Role = Some [''AwsBaseNetwork'', ''svcRoleForEc2ViaSsm'']\<rparr>" "''Development''"]
    by (cases "?dev w2") auto
  have f3p: "fresh w3 ([''AwsBaseNetwork''] @ [''Production''])"
    by (rule fresh_extend [OF f2p n1 b1]) simp
  have f3o: "fresh w3 ([''AwsBaseNetwork''] @ [''OnPrem''])"
    by (rule fresh_extend [OF f2o n1 b1]) simp
  have g3: "fresh w3 [''TgwAndVpnAndCgw'']"
    by (rule fresh_extend [OF g2 n1 b1]) simp
  obtain x2 w4 ns2 where V2: "?prod w3 = (Inr x2, w4)" and n2: "nodes w4 = nodes w3 @ ns2"
    and a2': "attachments ns2 = []"
    and b2: "list_all (\<lambda>n. take (length ([''AwsBaseNetwork''] @ [''Production'']))
                            (node_path n) = [''AwsBaseNetwork''] @ [''Production'']) ns2"
    using VpcWithEc2_below [OF f3p, of "\<lparr>ve_prefix = Some ''Production'',
          ve_cidr = ProductionCidr rp, ve_cidrMask = CidrMask rp, ve_transitGateway = None,
          ve_ec2Role = Some [''AwsBaseNetwork'', ''svcRoleForEc2ViaSsm'']\<rparr>" "''Production''"]
    by (cases "?prod w3") auto
  have f4: "fresh w4 ([''AwsBaseNetwork''] @ [''OnPrem''])"
    by (rule fresh_extend [OF f3o n2 b2]) simp
  have g4: "fresh w4 [''TgwAndVpnAndCgw'']"
    by (rule fresh_extend [OF g3 n2 b2]) simp
  obtain x3 w5 ns3 where V3: "?site w4 = (Inr x3, w5)" and n3: "nodes w5 = nodes w4 @ ns3"
    and a3: "attachments ns3 = []"
    and b3: "list_all (\<lambda>n. take (length ([''AwsBaseNetwork''] @ [''OnPrem'']))
                            (node_path n) = [''AwsBaseNetwork''] @ [''OnPrem'']) ns3"
    using SimulatedOnPrem_below [OF f4, of "\<lparr>op_prefix = Some ''OnPrem'',
          op_cidr = OnPremCidr rp, op_cidrMask = CidrMask rp,
          op_ec2Role = [''AwsBaseNetwork'', ''svcRoleForEc2ViaSsm'']\<rparr>" "''OnPrem''"]
    by (cases "?site w4") auto
  have g5: "fresh w5 [''TgwAndVpnAndCgw'']"
    by (rule fresh_extend [OF g4 n3 b3]) simp
  have a5: "attachments (nodes w5) = []"
    using a1 a2 a2' a3 by (simp add: n1 n2 n3 attachments_def)
  have "BaseNetworkStack [] ''AwsBaseNetwork'' REGION cfnParams empty_world =
          (Inr \<lparr>bn_developmentVpc = x1, bn_productionVpc = x2,
                ec2Role = [''AwsBaseNetwork'', ''svcRoleForEc2ViaSsm'']\<rparr>, w5)"
    unfolding BaseNetworkStack_def
    by (simp add: and_then_def new_def nonNull_def return_def empty_world_def assms
          V1 [unfolded w2_def] V2 V3)
  with a5 g5 show ?thesis
    by simp
qed

text \<open>The gateway stack throws once the customer gateway is declared.\<close>

lemma Gateway_without_asn:
  assumes "fresh w (scope @ [cid])" and "gw_prefix props = Some p"
    and "customerSideAsn props = None"
  shows "fst (Gateway scope cid props w) = Inl (MissingRequiredProperty ''bgpAsn'') \<and>
         attachments (nodes (snd (Gateway scope cid props w))) = attachments (nodes w)"
  using assms
  by (simp add: Gateway_def new_CfnCustomerGateway_def requireProperty_def run_simps
        attachments_def)

lemma Gateway_without_ip:
  assumes "fresh w (scope @ [cid])" and "gw_prefix props = Some p"
    and "customerSideAsn props = Some a" and "onPremIpAddress props = None"
  shows "fst (Gateway scope cid props w) = Inl (MissingRequiredProperty ''ipAddress'') \<and>
         attachments (nodes (snd (Gateway scope cid props w))) = attachments (nodes w)"
  using assms
  by (simp add: Gateway_def new_CfnCustomerGateway_def requireProperty_def run_simps
        attachments_def)

lemma and_then_Inl:
  assumes "fst (m w) = Inl e"
  shows "and_then m f w = (Inl e, snd (m w))"
  using assms by (cases "m w") (simp add: and_then_def)

lemma app_without_region:
  assumes "byRegion cfnParams REGION = None"
  shows "fst (app cfnParams empty_world) = Inl TypeError \<and>
         attachments (nodes (snd (app cfnParams empty_world))) = []"
  unfolding app_def
  by (simp add: and_then_def BaseNetworkStack_without_region [OF assms] attachments_def)

lemma app_at_gateway:
  assumes "byRegion cfnParams REGION = Some rp"
    and "\<And>w. fresh w ([] @ [''TgwAndVpnAndCgw'']) \<Longrightarrow>
           fst (Gateway [] ''TgwAndVpnAndCgw''
                  \<lparr>gw_prefix = Some ''TGW-'', gw_amazonSideAsn = AmazonSideAsn rp,
                   onPremIpAddress = OnPremPublicIp cfnParams,
                   customerSideAsn = CustomerSideAsn rp\<rparr> w) = Inl e \<and>
           attachments (nodes (snd (Gateway [] ''TgwAndVpnAndCgw''
                  \<lparr>gw_prefix = Some ''TGW-'', gw_amazonSideAsn = AmazonSideAsn rp,
                   onPremIpAddress = OnPremPublicIp cfnParams,
                   customerSideAsn = CustomerSideAsn rp\<rparr> w))) = attachments (nodes w)"
  shows "fst (app cfnParams empty_world) = Inl e \<and>
         attachments (nodes (snd (app cfnParams empty_world))) = []"
proof -
  obtain r w where B: "BaseNetworkStack [] ''AwsBaseNetwork'' REGION cfnParams empty_world = (r, w)"
    by (cases "BaseNetworkStack [] ''AwsBaseNetwork'' REGION cfnParams empty_world")
  with BaseNetworkStack_with_region [OF assms(1)] obtain bn
    where r: "r = Inr bn" and none: "attachments (nodes w) = []"
      and fr: "fresh w ([] @ [''TgwAndVpnAndCgw''])"
    by auto
  let ?G = "Gateway [] ''TgwAndVpnAndCgw''
                  \<lparr>gw_prefix = Some ''TGW-'', gw_amazonSideAsn = AmazonSideAsn rp,
                   onPremIpAddress = OnPremPublicIp cfnParams,
                   customerSideAsn = CustomerSideAsn rp\<rparr>"
  note G = assms(2) [OF fr]
  have "app cfnParams empty_world =
          and_then (nonNull (byRegion cfnParams REGION)) (\<lambda>rp.
          and_then (Gateway [] ''TgwAndVpnAndCgw''
              \<lparr>gw_prefix = Some ''TGW-'', gw_amazonSideAsn = AmazonSideAsn rp,
               onPremIpAddress = OnPremPublicIp cfnParams,
               customerSideAsn = CustomerSideAsn rp\<rparr>) (\<lambda>gateway.
          TgwRouteAttachment [] ''TgwRouteAttachment''
              \<lparr>ra_prefix = ''Gateway-'', ra_transitGateway = cfnTransitGateway gateway,
               developmentVpc = vpc (bn_developmentVpc bn),
               productionVpc = vpc (bn_productionVpc bn)\<rparr>)) w"
    unfolding app_def
    by (rule and_then_Inr [where m = "BaseNetworkStack [] ''AwsBaseNetwork'' REGION cfnParams"])
       (simp add: B r)
  also have "\<dots> = and_then ?G (\<lambda>gateway.
          TgwRouteAttachment [] ''TgwRouteAttachment''
              \<lparr>ra_prefix = ''Gateway-'', ra_transitGateway = cfnTransitGateway gateway,
               developmentVpc = vpc (bn_developmentVpc bn),
               productionVpc = vpc (bn_productionVpc bn)\<rparr>) w"
    by (rule and_then_Inr [where m = "nonNull (byRegion cfnParams REGION)"])
       (simp add: nonNull_def return_def assms(1))
  also have "\<dots> = (Inl e, snd (?G w))"
    by (rule and_then_Inl [where m = ?G]) (rule conjunct1 [OF G])
  finally have "app cfnParams empty_world = (Inl e, snd (?G w))" .
  with G none show ?thesis
    by simp
qed

lemma app_without_asn:
  assumes "byRegion cfnParams REGION = Some rp" and "CustomerSideAsn rp = None"
  shows "fst (app cfnParams empty_world) = Inl (MissingRequiredProperty ''bgpAsn'') \<and>
         attachments (nodes (snd (app cfnParams empty_world))) = []"
  by (rule app_at_gateway [OF assms(1)], rule Gateway_without_asn)
     (simp_all add: assms(2))

lemma app_without_ip:
  assumes "byRegion cfnParams REGION = Some rp" and "CustomerSideAsn rp = Some a"
    and "OnPremPublicIp cfnParams = None"
  shows "fst (app cfnParams empty_world) = Inl (MissingRequiredProperty ''ipAddress'') \<and>
         attachments (nodes (snd (app cfnParams empty_world))) = []"
  by (rule app_at_gateway [OF assms(1)], rule Gateway_without_ip)
     (simp_all add: assms(2,3))

text \<open>
  Claim C8. When the configuration has no \<^verbatim>\<open>OnPremPublicIp\<close>, the application throws an
  error of an absent configuration value, and the tree built up to the throw holds no
  transit gateway attachment: the gateway stack is built, and fails, before the route
  attachment stack is reached. When the region entry and its customer ASN are present,
  the error is the missing required property \<^verbatim>\<open>ipAddress\<close> of the customer gateway.
\<close>

theorem missing_onprem_ip_aborts:
  assumes "OnPremPublicIp cfnParams = None"
  shows "(\<exists>e. fst (app cfnParams empty_world) = Inl e \<and> is_ConfigurationError e)
       \<and> attachments (nodes (snd (app cfnParams empty_world))) = []
       \<and> (byRegion cfnParams REGION = Some rp \<and> CustomerSideAsn rp = Some a \<longrightarrow>
            fst (app cfnParams empty_world) = Inl (MissingRequiredProperty ''ipAddress''))"
proof (cases "byRegion cfnParams REGION")
  case None
  then show ?thesis
    by (simp add: app_without_region)
next
  case (Some rp')
  show ?thesis
  proof (cases "CustomerSideAsn rp'")
    case None
    with Some show ?thesis
      by (auto simp add: app_without_asn)
  next
    case (Some a')
    with \<open>byRegion cfnParams REGION = Some rp'\<close> assms show ?thesis
      by (simp add: app_without_ip)
  qed
qed

theorem missing_onprem_ip_aborts_witness:
  "OnPremPublicIp sample_params_no_ip = None \<and>
   byRegion sample_params_no_ip REGION = Some sample_region \<and>
   CustomerSideAsn sample_region = Some 65000 \<and>
   fst (app sample_params_no_ip empty_world) = Inl (MissingRequiredProperty ''ipAddress'') \<and>
   attachments (nodes (snd (app sample_params_no_ip empty_world))) = []"
proof -
  have 1: "OnPremPublicIp sample_params_no_ip = None"
    and 2: "byRegion sample_params_no_ip REGION = Some sample_region"
    and 3: "CustomerSideAsn sample_region = Some 65000"
    by (simp_all add: sample_params_no_ip_def sample_region_def REGION_def)
  from missing_onprem_ip_aborts [OF 1, of sample_region 65000] 1 2 3 show ?thesis
    by simp
qed

end
